theory Spec2Isabelle
  imports Main
begin

section \<open>JavaScript values, errors and results\<close>

text \<open>
  The values of JavaScript that the dispatch core inspects: titles, tags, callbacks and
  the \<open>timeout\<close> option. A function value is named by a number. Equality of this
  datatype is the \<open>===\<close> of the source on these values.
\<close>

datatype jsval =
    JUndefined
  | JNull
  | JBool bool
  | JNumber int
  | JString string
  | JFunction nat

text \<open>
  Modelled from the spec: \<open>Util.isString\<close> and \<open>Util.isFunction\<close> (Util.js is not
  among the sources) test that a value is a string ("title must be a string") and that
  an optional callback was supplied as a function.
\<close>

fun isString :: "jsval \<Rightarrow> bool" where
  "isString (JString _) = True"
| "isString _ = False"

fun isFunction :: "jsval \<Rightarrow> bool" where
  "isFunction (JFunction _) = True"
| "isFunction _ = False"

text \<open>The truth value of a JavaScript value in a condition (\<open>if (options.timeout)\<close>).\<close>

fun truthy :: "jsval \<Rightarrow> bool" where
  "truthy JUndefined = False"
| "truthy JNull = False"
| "truthy (JBool b) = b"
| "truthy (JNumber n) = (n \<noteq> 0)"
| "truthy (JString s) = (s \<noteq> [])"
| "truthy (JFunction _) = True"

text \<open>
  Everything the core throws or passes on:
  \<^item> \<open>TitleNotString\<close>: \<open>Error('PushError: Title of notification must be a string')\<close>;
  \<^item> \<open>UnknownInterface\<close>: \<open>Error(Messages.errors.unknown_interface)\<close>;
  \<^item> \<open>UnableToClose\<close>: \<open>Error('Unable to close notification: unknown interface')\<close>;
  \<^item> \<open>AgentError\<close>: whatever an agent's \<open>create\<close> throws;
  \<^item> \<open>TypeError\<close>: reading a property of \<open>undefined\<close>.
\<close>

datatype error =
    TitleNotString
  | UnknownInterface
  | UnableToClose
  | AgentError string
  | TypeError

datatype 'a result = Returns 'a | Throws error

section \<open>Agents, options, native records\<close>

datatype agent = Desktop | Chrome | Firefox | MS | WebKit

text \<open>The options of a \<open>create\<close> call that the core and the agents read.\<close>

record options =
  opt_tag :: jsval
  timeout :: jsval
  onShow :: jsval
  onError :: jsval
  onClick :: jsval
  onClose :: jsval

definition empty_options :: options where
  "empty_options = \<lparr>opt_tag = JUndefined, timeout = JUndefined, onShow = JUndefined,
     onError = JUndefined, onClick = JUndefined, onClose = JUndefined\<rparr>"

text \<open>\<open>options || {}\<close>, the options being an object or absent.\<close>

definition options_or_empty :: "options option \<Rightarrow> options" where
  "options_or_empty options0 = (case options0 of None \<Rightarrow> empty_options | Some x \<Rightarrow> x)"

text \<open>
  A listener attached to a native record is either a caller's callback or one of the two
  closures \<open>() => { onClose(id) }\<close> that \<open>_createCallback\<close> builds.
\<close>

datatype handler = UserHandler jsval | CloseHandler nat

record native =
  tag :: jsval
  listeners :: "(string \<times> handler) list"

text \<open>
  What a registry entry or a variable holds: \<open>undefined\<close>, or a reference to a native
  record in the store.
\<close>

datatype slot = Undefined | Obj nat

text \<open>Calls to the external collaborators, in the order they are made.\<close>

datatype call =
    PermissionHas
  | PermissionRequest
  | IsSupported agent
  | Create agent
  | Close agent "nat option"
  | ShowNotification nat
  | PostMessage
  | Callback jsval

text \<open>
  Modelled from the spec: the desktop, WebKit, Firefox and MS agents and the Permission
  class are not among the sources. A synchronous agent "returns the native record
  immediately, or signals failure by throwing"; \<open>isSupported\<close> "must not throw";
  \<open>close\<close> is "best-effort closure".

  What they answer is a parameter, the environment: what each agent's
  \<open>isSupported()\<close> answers, what each synchronous agent's \<open>create(title, options)\<close>
  does (throw, return \<open>null\<close>, or return a new native record, given by its initial
  contents), and what \<open>Permission.has()\<close> answers.
\<close>

record env =
  desktop_supported :: bool
  chrome_supported :: bool
  firefox_supported :: bool
  ms_supported :: bool
  webkit_supported :: bool
  desktop_create :: "jsval \<Rightarrow> options \<Rightarrow> native option result"
  webkit_create :: "jsval \<Rightarrow> options \<Rightarrow> native option result"
  firefox_create :: "jsval \<Rightarrow> options \<Rightarrow> native option result"
  ms_create :: "jsval \<Rightarrow> options \<Rightarrow> native option result"
  permission_has :: bool

text \<open>\<open>isSupported()\<close> of an agent.\<close>

definition isSupported :: "env \<Rightarrow> agent \<Rightarrow> bool" where
  "isSupported e a =
     (case a of
        Desktop \<Rightarrow> desktop_supported e
      | Chrome \<Rightarrow> chrome_supported e
      | Firefox \<Rightarrow> firefox_supported e
      | MS \<Rightarrow> ms_supported e
      | WebKit \<Rightarrow> webkit_supported e)"

section \<open>The state\<close>

text \<open>
  \<open>currentId\<close> and \<open>notifications\<close> are the two private fields of \<open>Push\<close>. The
  object \<open>_notifications\<close> is a list of its own properties in the order \<open>for ... in\<close>
  enumerates them. \<open>heap\<close> is the store of native records, a reference being an index;
  \<open>timers\<close> are the pending \<open>setTimeout\<close> calls (delay, id to close);
  \<open>messageListeners\<close> counts the listeners on the worker's message channel;
  \<open>calls\<close> is the log of calls to the collaborators.
\<close>

record state =
  currentId :: nat
  notifications :: "(nat \<times> slot) list"
  heap :: "native list"
  timers :: "(jsval \<times> nat) list"
  messageListeners :: nat
  calls :: "call list"

text \<open>The constructor.\<close>

definition init :: state where
  "init = \<lparr>currentId = 0, notifications = [], heap = [], timers = [],
     messageListeners = 0, calls = []\<rparr>"

definition log :: "call \<Rightarrow> state \<Rightarrow> state" where
  "log c s = s\<lparr>calls := calls s @ [c]\<rparr>"

subsection \<open>Property access on the registry object\<close>

text \<open>\<open>obj[k]\<close>: \<open>undefined\<close> for a missing property.\<close>

definition obj_get :: "(nat \<times> slot) list \<Rightarrow> nat \<Rightarrow> slot" where
  "obj_get xs k = (case map_of xs k of None \<Rightarrow> Undefined | Some v \<Rightarrow> v)"

text \<open>\<open>obj.hasOwnProperty(k)\<close>.\<close>

definition hasOwnProperty :: "(nat \<times> slot) list \<Rightarrow> nat \<Rightarrow> bool" where
  "hasOwnProperty xs k = (k \<in> set (map fst xs))"

text \<open>
  \<open>obj[k] = v\<close>: an existing property keeps its place; a new integer key is enumerated
  in ascending numeric order among the integer keys.
\<close>

fun obj_set :: "nat \<Rightarrow> slot \<Rightarrow> (nat \<times> slot) list \<Rightarrow> (nat \<times> slot) list" where
  "obj_set k v [] = [(k, v)]"
| "obj_set k v ((k', v') # xs) =
     (if k = k' then (k, v) # xs
      else if k < k' then (k, v) # (k', v') # xs
      else (k', v') # obj_set k v xs)"

text \<open>\<open>delete obj[k]\<close>.\<close>

definition obj_delete :: "nat \<Rightarrow> (nat \<times> slot) list \<Rightarrow> (nat \<times> slot) list" where
  "obj_delete k xs = filter (\<lambda>kv. fst kv \<noteq> k) xs"

subsection \<open>The store of native records\<close>

text \<open>
  A reference outside the store denotes an object without properties of its own: its
  \<open>tag\<close> reads \<open>undefined\<close>.
\<close>

definition deref :: "native list \<Rightarrow> nat \<Rightarrow> native" where
  "deref h r = (if r < length h then h ! r else \<lparr>tag = JUndefined, listeners = []\<rparr>)"

definition alloc :: "native \<Rightarrow> state \<Rightarrow> nat \<times> state" where
  "alloc n s = (length (heap s), s\<lparr>heap := heap s @ [n]\<rparr>)"

text \<open>\<open>notification.addEventListener(event, handler)\<close> on the record at \<open>r\<close>.\<close>

definition addEventListener :: "nat \<Rightarrow> string \<Rightarrow> handler \<Rightarrow> state \<Rightarrow> state" where
  "addEventListener r ev h s =
     (if r < length (heap s)
      then s\<lparr>heap := (heap s)[r := (heap s ! r)\<lparr>listeners := listeners (heap s ! r) @ [(ev, h)]\<rparr>]\<rparr>
      else s)"

section \<open>The registry operations of Push\<close>

text \<open>\<open>_removeNotification(id)\<close>\<close>

definition removeNotification :: "nat \<Rightarrow> state \<Rightarrow> bool \<times> state" where
  "removeNotification ident s =
     (if hasOwnProperty (notifications s) ident
      then (True, s\<lparr>notifications := obj_delete ident (notifications s)\<rparr>)
      else (False, s))"

text \<open>
  \<open>_closeNotification(id)\<close>. The entry is removed before the agents are probed; the
  \<open>throw\<close> of the last branch leaves the removal in place.
\<close>

definition closeNotification :: "env \<Rightarrow> nat \<Rightarrow> state \<Rightarrow> bool result \<times> state" where
  "closeNotification e ident s =
     (case obj_get (notifications s) ident of
        Undefined \<Rightarrow> (Returns False, s)
      | Obj r \<Rightarrow>
          (let (success, s1) = removeNotification ident s;
               s2 = log (IsSupported Desktop) s1
           in if desktop_supported e then (Returns success, log (Close Desktop (Some r)) s2)
              else let s3 = log (IsSupported WebKit) s2
              in if webkit_supported e then (Returns success, log (Close WebKit (Some r)) s3)
              else let s4 = log (IsSupported MS) s3
              in if ms_supported e then (Returns success, log (Close MS None) s4)
              else (Throws UnableToClose, s4)))"

text \<open>
  \<open>this._currentId++\<close>. The counter is a number of the source, a double: up to
  \<open>2^53\<close> adding 1 is exact, and \<open>2^53 + 1\<close>, which is no double, rounds to
  \<open>2^53\<close>. The counter of a \<open>Push\<close> starts at 0 and changes here only, so it
  never passes that limit, where it stays.
\<close>

definition id_limit :: nat where
  "id_limit = 2 ^ 53"

definition increment :: "nat \<Rightarrow> nat" where
  "increment n = (if n < id_limit then Suc n else n)"

text \<open>
  \<open>_addNotification(notification)\<close>: a key that the registry has already is
  overwritten.
\<close>

definition addNotification :: "slot \<Rightarrow> state \<Rightarrow> nat \<times> state" where
  "addNotification n s =
     (currentId s,
      s\<lparr>notifications := obj_set (currentId s) n (notifications s),
        currentId := increment (currentId s)\<rparr>)"

section \<open>Handles and futures\<close>

text \<open>
  The wrapper of \<open>_prepareNotification\<close> closes over the id alone; \<open>{}\<close> is the empty
  handle.
\<close>

datatype handle = Wrapper nat | EmptyHandle

text \<open>\<open>wrapper.get()\<close>; \<open>{}.get\<close> is not a function.\<close>

definition handle_get :: "handle \<Rightarrow> state \<Rightarrow> slot result" where
  "handle_get h s =
     (case h of
        Wrapper ident \<Rightarrow> Returns (obj_get (notifications s) ident)
      | EmptyHandle \<Rightarrow> Throws TypeError)"

text \<open>\<open>wrapper.close()\<close>: the result of \<open>_closeNotification\<close> is dropped.\<close>

definition handle_close :: "env \<Rightarrow> handle \<Rightarrow> state \<Rightarrow> unit result \<times> state" where
  "handle_close e h s =
     (case h of
        Wrapper ident \<Rightarrow>
          (case closeNotification e ident s of
             (Returns b, s') \<Rightarrow> (Returns (), s')
           | (Throws x, s') \<Rightarrow> (Throws x, s'))
      | EmptyHandle \<Rightarrow> (Throws TypeError, s))"

text \<open>
  A future is settled once: \<open>resolve\<close> and \<open>reject\<close> on a settled future do nothing.
  A rejection carries the caught error, or the string \<open>"Permission request declined"\<close>.
\<close>

datatype reason = Thrown error | Declined

datatype promise = Pending | Resolved handle | Rejected reason

fun resolve :: "handle \<Rightarrow> promise \<Rightarrow> promise" where
  "resolve h Pending = Resolved h"
| "resolve h p = p"

fun reject :: "reason \<Rightarrow> promise \<Rightarrow> promise" where
  "reject x Pending = Rejected x"
| "reject x p = p"

text \<open>\<open>_prepareNotification(id, options)\<close>\<close>

definition prepareNotification :: "nat \<Rightarrow> options \<Rightarrow> state \<Rightarrow> handle \<times> state" where
  "prepareNotification ident opts s =
     (Wrapper ident,
      if truthy (timeout opts) then s\<lparr>timers := timers s @ [(timeout opts, ident)]\<rparr> else s)"

section \<open>The Service-Worker agent\<close>

text \<open>
  \<open>MobileChromeAgent.create\<close> returns at once. What it started goes on when the
  worker is ready, when \<open>showNotification\<close> has succeeded, and when
  \<open>getNotifications\<close> has answered; only then is the callback called. A rejection at
  any point ends in a handler that throws inside a promise chain: the callback is never
  called and nothing reaches the caller of \<open>create\<close>. The payload is modelled by its
  \<open>id\<close> alone, and the path of the worker script, which decides nothing here, is left
  out.
\<close>

datatype sw_stage = AwaitReady | AwaitDisplay | AwaitList | Delivered | Failed

datatype sw_signal =
    WorkerReady
  | DisplaySuccess
  | NotificationList "native list"
  | Rejection

record sw_request =
  req_id :: nat
  req_options :: options
  stage :: sw_stage

definition chrome_create :: "nat \<Rightarrow> options \<Rightarrow> state \<Rightarrow> sw_request \<times> state" where
  "chrome_create ident opts s =
     (\<lparr>req_id = ident, req_options = opts, stage = AwaitReady\<rparr>, log (Create Chrome) s)"

text \<open>The records of a notification list are new objects of the store.\<close>

fun alloc_list :: "native list \<Rightarrow> state \<Rightarrow> nat list \<times> state" where
  "alloc_list [] s = ([], s)"
| "alloc_list (n # ns) s =
     (let (r, s1) = alloc n s; (rs, s2) = alloc_list ns s1 in (r # rs, s2))"

text \<open>
  One signal to a request: the new request, the list handed to the callback if the
  callback is called now, and the state.
\<close>

definition chrome_signal ::
  "sw_signal \<Rightarrow> sw_request \<Rightarrow> state \<Rightarrow> sw_request \<times> nat list option \<times> state" where
  "chrome_signal sig req s =
     (case (stage req, sig) of
        (AwaitReady, WorkerReady) \<Rightarrow>
          (req\<lparr>stage := AwaitDisplay\<rparr>, None, log (ShowNotification (req_id req)) s)
      | (AwaitDisplay, DisplaySuccess) \<Rightarrow> (req\<lparr>stage := AwaitList\<rparr>, None, s)
      | (AwaitList, NotificationList ns) \<Rightarrow>
          (let (rs, s1) = alloc_list ns s
           in (req\<lparr>stage := Delivered\<rparr>, Some rs, log PostMessage s1))
      | (AwaitReady, Rejection) \<Rightarrow> (req\<lparr>stage := Failed\<rparr>, None, s)
      | (AwaitDisplay, Rejection) \<Rightarrow> (req\<lparr>stage := Failed\<rparr>, None, s)
      | (AwaitList, Rejection) \<Rightarrow> (req\<lparr>stage := Failed\<rparr>, None, s)
      | _ \<Rightarrow> (req, None, s))"

section \<open>Creation\<close>

text \<open>\<open>notifications[notifications.length - 1]\<close>: \<open>undefined\<close> on the empty list.\<close>

definition last_entry :: "nat list \<Rightarrow> slot" where
  "last_entry rs = (case rev rs of [] \<Rightarrow> Undefined | r # _ \<Rightarrow> Obj r)"

text \<open>
  The callback that \<open>_createCallback\<close> gives to the Service-Worker agent, with the
  \<open>resolve\<close> of the future it belongs to.
\<close>

definition swCallback :: "options \<Rightarrow> nat list \<Rightarrow> promise \<Rightarrow> state \<Rightarrow> promise \<times> state" where
  "swCallback opts rs p s =
     (let (ident, s1) = addNotification (last_entry rs) s;
          s2 = s1\<lparr>messageListeners := Suc (messageListeners s1)\<rparr>;
          (wrapper, s3) = prepareNotification ident opts s2
      in (resolve wrapper p, s3))"

text \<open>
  The listener on the worker's message channel, on the parsed message
  \<open>{action, id}\<close>.
\<close>

definition onWorkerMessage :: "jsval \<Rightarrow> jsval \<Rightarrow> state \<Rightarrow> state" where
  "onWorkerMessage action ident s =
     (case ident of
        JNumber n \<Rightarrow>
          (if action = JString ''close'' \<and> 0 \<le> n then snd (removeNotification (nat n) s) else s)
      | _ \<Rightarrow> s)"

text \<open>
  A synchronous agent's \<open>create\<close>: the call is logged; a returned record is a new
  object of the store.
\<close>

definition agent_create :: "agent \<Rightarrow> native option result \<Rightarrow> state \<Rightarrow> nat option result \<times> state" where
  "agent_create a outcome s =
     (let s1 = log (Create a) s
      in case outcome of
           Throws x \<Rightarrow> (Throws x, s1)
         | Returns None \<Rightarrow> (Returns None, s1)
         | Returns (Some n) \<Rightarrow> (let (r, s2) = alloc n s1 in (Returns (Some r), s2)))"

text \<open>
  The end of \<open>_createCallback\<close>, from \<open>if (notification !== null)\<close> on:
  \<open>resolve(wrapper)\<close> is followed by \<open>resolve({})\<close>.
\<close>

definition finish :: "options \<Rightarrow> nat option \<Rightarrow> promise \<Rightarrow> state \<Rightarrow> promise \<times> state" where
  "finish opts notification p s =
     (case notification of
        None \<Rightarrow> (resolve EmptyHandle p, s)
      | Some r \<Rightarrow>
          (let (ident, s1) = addNotification (Obj r) s;
               (wrapper, s2) = prepareNotification ident opts s1;
               s3 = (if isFunction (onShow opts)
                     then addEventListener r ''show'' (UserHandler (onShow opts)) s2 else s2);
               s4 = (if isFunction (onError opts)
                     then addEventListener r ''error'' (UserHandler (onError opts)) s3 else s3);
               s5 = (if isFunction (onClick opts)
                     then addEventListener r ''click'' (UserHandler (onClick opts)) s4 else s4);
               s6 = addEventListener r ''close'' (CloseHandler ident) s5;
               s7 = addEventListener r ''cancel'' (CloseHandler ident) s6;
               p1 = resolve wrapper p
           in (resolve EmptyHandle p1, s7)))"

text \<open>
  \<open>_createCallback(title, options, resolve)\<close>: what it throws or, when it returns, the
  request it left with the Service-Worker agent if any; the future; the state.
\<close>

definition createCallback ::
  "env \<Rightarrow> jsval \<Rightarrow> options option \<Rightarrow> promise \<Rightarrow> state
     \<Rightarrow> sw_request option result \<times> promise \<times> state" where
  "createCallback e title options0 p s =
     (let opts = options_or_empty options0;
          s1 = log (IsSupported Desktop) s
      in if desktop_supported e then
           (case agent_create Desktop (desktop_create e title opts) s1 of
              (Returns n, s2) \<Rightarrow>
                (let (p', s3) = finish opts n p s2 in (Returns None, p', s3))
            | (Throws x, s2) \<Rightarrow>
                (let s3 = log (IsSupported Chrome) s2
                 in if chrome_supported e then
                      (let (req, s4) = chrome_create (currentId s3) opts s3;
                           (p', s5) = finish opts None p s4
                       in (Returns (Some req), p', s5))
                    else (let (p', s4) = finish opts None p s3 in (Returns None, p', s4))))
         else let s2 = log (IsSupported WebKit) s1
         in if webkit_supported e then
           (case agent_create WebKit (webkit_create e title opts) s2 of
              (Returns n, s3) \<Rightarrow>
                (let (p', s4) = finish opts n p s3 in (Returns None, p', s4))
            | (Throws x, s3) \<Rightarrow> (Throws x, p, s3))
         else let s3 = log (IsSupported Firefox) s2
         in if firefox_supported e then
           (case agent_create Firefox (firefox_create e title opts) s3 of
              (Returns n, s4) \<Rightarrow>
                (let (p', s5) = finish opts None p s4 in (Returns None, p', s5))
            | (Throws x, s4) \<Rightarrow> (Throws x, p, s4))
         else let s4 = log (IsSupported MS) s3
         in if ms_supported e then
           (case agent_create MS (ms_create e title opts) s4 of
              (Returns n, s5) \<Rightarrow>
                (let (p', s6) = finish opts n p s5 in (Returns None, p', s6))
            | (Throws x, s5) \<Rightarrow> (Throws x, p, s5))
         else (Throws UnknownInterface, p, s4))"

text \<open>
  \<open>try { this._createCallback(title, options, resolve) } catch (e) { reject(e) }\<close>,
  the body of both promise callbacks of \<open>create\<close>.
\<close>

definition tryCreateCallback ::
  "env \<Rightarrow> jsval \<Rightarrow> options option \<Rightarrow> promise \<Rightarrow> state
     \<Rightarrow> promise \<times> sw_request option \<times> state" where
  "tryCreateCallback e title options0 p s =
     (case createCallback e title options0 p s of
        (Returns req, p', s') \<Rightarrow> (p', req, s')
      | (Throws x, p', s') \<Rightarrow> (reject (Thrown x) p', None, s'))"

text \<open>
  \<open>create(title, options)\<close>. Without permission the future is returned pending, with a
  request to the Permission Gate; the two callbacks of that request follow.
\<close>

definition create ::
  "env \<Rightarrow> jsval \<Rightarrow> options option \<Rightarrow> state \<Rightarrow> (promise \<times> sw_request option) result \<times> state" where
  "create e title options0 s =
     (if \<not> isString title then (Throws TitleNotString, s)
      else let s1 = log PermissionHas s
      in if \<not> permission_has e then (Returns (Pending, None), log PermissionRequest s1)
         else (let (p, req, s2) = tryCreateCallback e title options0 Pending s1
               in (Returns (p, req), s2)))"

definition permissionGranted ::
  "env \<Rightarrow> jsval \<Rightarrow> options option \<Rightarrow> promise \<Rightarrow> state
     \<Rightarrow> promise \<times> sw_request option \<times> state" where
  "permissionGranted e title options0 p s = tryCreateCallback e title options0 p s"

definition permissionDenied :: "promise \<Rightarrow> state \<Rightarrow> promise \<times> sw_request option \<times> state" where
  "permissionDenied p s = (reject Declined p, None, s)"

text \<open>
  Modelled from the spec: \<open>Permission.request(onGranted, onDenied)\<close> (not among the
  sources) is an "asynchronous prompt, exactly one of the two callbacks fires exactly
  once". \<open>create_decided\<close> is a \<open>create\<close> call followed, when it asked, by the answer.
\<close>

datatype decision = Granted | Denied

definition create_decided ::
  "env \<Rightarrow> decision \<Rightarrow> jsval \<Rightarrow> options option \<Rightarrow> state
     \<Rightarrow> (promise \<times> sw_request option) result \<times> state" where
  "create_decided e d title options0 s =
     (case create e title options0 s of
        (Throws x, s1) \<Rightarrow> (Throws x, s1)
      | (Returns (p, req), s1) \<Rightarrow>
          (if permission_has e then (Returns (p, req), s1)
           else (let (p', req', s2) =
                       (case d of
                          Granted \<Rightarrow> permissionGranted e title options0 p s1
                        | Denied \<Rightarrow> permissionDenied p s1)
                 in (Returns (p', req'), s2))))"

text \<open>A signal to a request left by \<open>create\<close>, with the future of that call.\<close>

definition worker_signal ::
  "sw_signal \<Rightarrow> sw_request \<Rightarrow> promise \<Rightarrow> state \<Rightarrow> sw_request \<times> promise \<times> state" where
  "worker_signal sig req p s =
     (case chrome_signal sig req s of
        (req', None, s1) \<Rightarrow> (req', p, s1)
      | (req', Some rs, s1) \<Rightarrow>
          (let (p', s2) = swCallback (req_options req) rs p s1 in (req', p', s2)))"

fun worker_signals ::
  "sw_signal list \<Rightarrow> sw_request \<Rightarrow> promise \<Rightarrow> state \<Rightarrow> sw_request \<times> promise \<times> state" where
  "worker_signals [] req p s = (req, p, s)"
| "worker_signals (sig # sigs) req p s =
     (let (req', p', s') = worker_signal sig req p s in worker_signals sigs req' p' s')"

section \<open>Closing\<close>

text \<open>
  The \<open>onClose\<close> closure of \<open>_createCallback\<close>, run by the \<open>close\<close> and \<open>cancel\<close>
  listeners; the caller's callback is an external call.
\<close>

definition onClose_closure :: "options \<Rightarrow> nat \<Rightarrow> state \<Rightarrow> state" where
  "onClose_closure opts ident s =
     (let s1 = snd (removeNotification ident s)
      in if isFunction (onClose opts) then log (Callback (onClose opts)) s1 else s1)"

text \<open>\<open>count()\<close>\<close>

definition count :: "state \<Rightarrow> nat" where
  "count s = length (notifications s)"

text \<open>
  \<open>close(tag)\<close>: the loop over the keys; \<open>notification.tag\<close> on an entry that holds
  \<open>undefined\<close> is a TypeError; without a match the function ends without a
  \<open>return\<close>.
\<close>

fun close_loop :: "env \<Rightarrow> jsval \<Rightarrow> nat list \<Rightarrow> state \<Rightarrow> jsval result \<times> state" where
  "close_loop e t [] s = (Returns JUndefined, s)"
| "close_loop e t (k # ks) s =
     (case obj_get (notifications s) k of
        Undefined \<Rightarrow> (Throws TypeError, s)
      | Obj r \<Rightarrow>
          (if tag (deref (heap s) r) = t
           then (case closeNotification e k s of
                   (Returns b, s') \<Rightarrow> (Returns (JBool b), s')
                 | (Throws x, s') \<Rightarrow> (Throws x, s'))
           else close_loop e t ks s))"

definition close :: "env \<Rightarrow> jsval \<Rightarrow> state \<Rightarrow> jsval result \<times> state" where
  "close e t s = close_loop e t (map fst (notifications s)) s"

text \<open>
  \<open>clear()\<close>: \<open>success = success && this._closeNotification(key)\<close> for each key; a
  key deleted before its turn is not visited.
\<close>

fun clear_loop :: "env \<Rightarrow> nat list \<Rightarrow> bool \<Rightarrow> state \<Rightarrow> bool result \<times> state" where
  "clear_loop e [] success s = (Returns success, s)"
| "clear_loop e (k # ks) success s =
     (if \<not> hasOwnProperty (notifications s) k then clear_loop e ks success s
      else if success then
        (case closeNotification e k s of
           (Returns b, s') \<Rightarrow> clear_loop e ks b s'
         | (Throws x, s') \<Rightarrow> (Throws x, s'))
      else clear_loop e ks False s)"

definition clear :: "env \<Rightarrow> state \<Rightarrow> bool result \<times> state" where
  "clear e s = clear_loop e (map fst (notifications s)) True s"

section \<open>Runs\<close>

text \<open>
  What can happen to a \<open>Push\<close> after its construction: a \<open>create\<close> call with the
  answer of the Permission Gate if it is asked; a signal to a request held by the
  Service-Worker agent; a handle's \<open>close()\<close> (also from a timeout); \<open>close(tag)\<close>;
  \<open>clear()\<close>; a native \<open>close\<close> or \<open>cancel\<close> event; a message of the worker.
\<close>

datatype event =
    Created decision jsval "options option"
  | Signalled sw_signal sw_request promise
  | HandleClosed nat
  | TagClosed jsval
  | Cleared
  | NativeClosed options nat
  | WorkerMessage jsval jsval

definition step :: "env \<Rightarrow> event \<Rightarrow> state \<Rightarrow> state" where
  "step e ev s =
     (case ev of
        Created d title options0 \<Rightarrow> snd (create_decided e d title options0 s)
      | Signalled sig req q \<Rightarrow> snd (snd (worker_signal sig req q s))
      | HandleClosed ident \<Rightarrow> snd (handle_close e (Wrapper ident) s)
      | TagClosed t \<Rightarrow> snd (close e t s)
      | Cleared \<Rightarrow> snd (clear e s)
      | NativeClosed opts ident \<Rightarrow> onClose_closure opts ident s
      | WorkerMessage action ident \<Rightarrow> onWorkerMessage action ident s)"

text \<open>The ids that a step hands out: the keys that the registry has gained.\<close>

definition added :: "state \<Rightarrow> state \<Rightarrow> nat list" where
  "added s s' =
     filter (\<lambda>k. \<not> hasOwnProperty (notifications s) k) (map fst (notifications s'))"

fun run :: "env \<Rightarrow> event list \<Rightarrow> state \<Rightarrow> nat list \<times> state" where
  "run e [] s = ([], s)"
| "run e (ev # evs) s =
     (let s1 = step e ev s; (ids, s2) = run e evs s1 in (added s s1 @ ids, s2))"

text \<open>Every key of the registry is below the counter.\<close>

definition below_counter :: "state \<Rightarrow> bool" where
  "below_counter s = list_all (\<lambda>k. k < currentId s) (map fst (notifications s))"

section \<open>Notions of the statements\<close>

text \<open>
  An entry matches a tag when it holds a record whose \<open>tag\<close> is that value; the first
  match is the first such key in the order of enumeration. A registry of records holds
  \<open>undefined\<close> nowhere.
\<close>

definition matches :: "jsval \<Rightarrow> state \<Rightarrow> nat \<Rightarrow> bool" where
  "matches t s k =
     (case obj_get (notifications s) k of
        Undefined \<Rightarrow> False
      | Obj r \<Rightarrow> tag (deref (heap s) r) = t)"

definition first_match :: "jsval \<Rightarrow> state \<Rightarrow> nat option" where
  "first_match t s = find (matches t s) (map fst (notifications s))"

text \<open>Every entry has a tag, and none has the given one.\<close>

definition no_tag_matches :: "jsval \<Rightarrow> state \<Rightarrow> bool" where
  "no_tag_matches t s =
     list_all (\<lambda>k. case obj_get (notifications s) k of
                       Undefined \<Rightarrow> False
                     | Obj r \<Rightarrow> tag (deref (heap s) r) \<noteq> t)
       (map fst (notifications s))"

definition all_records :: "state \<Rightarrow> bool" where
  "all_records s =
     list_all (\<lambda>k. obj_get (notifications s) k \<noteq> Undefined) (map fst (notifications s))"

text \<open>
  The order of the synchronous agents in \<open>_createCallback\<close>, and probing in that
  order up to the first agent that is supported: the probes made and the agent found.
\<close>

definition fallback_order :: "agent list" where
  "fallback_order = [Desktop, WebKit, Firefox, MS]"

fun probe_in_order :: "env \<Rightarrow> agent list \<Rightarrow> call list \<times> agent option" where
  "probe_in_order e [] = ([], None)"
| "probe_in_order e (a # as) =
     (if isSupported e a then ([IsSupported a], Some a)
      else (let (cs, r) = probe_in_order e as in (IsSupported a # cs, r)))"

text \<open>The agent that serves a creation: the first supported one in the order.\<close>

definition serving :: "env \<Rightarrow> agent option" where
  "serving e = snd (probe_in_order e fallback_order)"

fun throws :: "'a result \<Rightarrow> bool" where
  "throws (Throws x) = True"
| "throws (Returns v) = False"

text \<open>
  The calls of a dispatch as the priority order has them: the probes in order; the
  \<open>create\<close> of the serving agent; and, when that agent is the desktop agent and its
  \<open>create\<close> throws, the probe of the Service-Worker agent and its \<open>create\<close> if it is
  supported.
\<close>

definition expected_calls :: "env \<Rightarrow> jsval \<Rightarrow> options option \<Rightarrow> call list" where
  "expected_calls e title options0 =
     (case probe_in_order e fallback_order of
        (probes, None) \<Rightarrow> probes
      | (probes, Some a) \<Rightarrow>
          probes @ [Create a] @
          (if a = Desktop \<and> throws (desktop_create e title (options_or_empty options0))
           then IsSupported Chrome # (if chrome_supported e then [Create Chrome] else [])
           else []))"

text \<open>The \<open>create\<close> of each synchronous agent.\<close>

definition agent_creates :: "env \<Rightarrow> agent \<Rightarrow> jsval \<Rightarrow> options \<Rightarrow> native option result" where
  "agent_creates e a =
     (case a of
        Desktop \<Rightarrow> desktop_create e
      | WebKit \<Rightarrow> webkit_create e
      | Firefox \<Rightarrow> firefox_create e
      | MS \<Rightarrow> ms_create e
      | Chrome \<Rightarrow> (\<lambda>title opts. Returns None))"

text \<open>
  The listeners that \<open>_createCallback\<close> attaches to a record registered under an id:
  the caller's \<open>onShow\<close>, \<open>onError\<close> and \<open>onClick\<close> where they are functions,
  then the two closures that run \<open>onClose\<close>.
\<close>

definition expected_listeners :: "options \<Rightarrow> nat \<Rightarrow> (string \<times> handler) list" where
  "expected_listeners opts ident =
     (if isFunction (onShow opts) then [(''show'', UserHandler (onShow opts))] else []) @
     (if isFunction (onError opts) then [(''error'', UserHandler (onError opts))] else []) @
     (if isFunction (onClick opts) then [(''click'', UserHandler (onClick opts))] else []) @
     [(''close'', CloseHandler ident), (''cancel'', CloseHandler ident)]"

text \<open>
  Two pairs of a future and a state are the same to a caller when the future, the
  registry and the counter are: a request to the Service-Worker agent that has not
  called back has touched none of them.
\<close>

definition untouched :: "promise \<times> state \<Rightarrow> promise \<times> state \<Rightarrow> bool" where
  "untouched a b =
     (fst a = fst b \<and> notifications (snd a) = notifications (snd b) \<and>
      currentId (snd a) = currentId (snd b))"

text \<open>A future that has failed.\<close>

fun rejected :: "promise \<Rightarrow> bool" where
  "rejected (Rejected x) = True"
| "rejected p = False"

section \<open>Example environments and states\<close>

definition plain :: "jsval \<Rightarrow> native" where
  "plain t = \<lparr>tag = t, listeners = []\<rparr>"

text \<open>An agent whose \<open>create\<close> returns a record with the tag of the options.\<close>

definition makes_record :: "jsval \<Rightarrow> options \<Rightarrow> native option result" where
  "makes_record title opts = Returns (Some (plain (opt_tag opts)))"

text \<open>An agent whose \<open>create\<close> throws, as \<open>new Notification\<close> does on mobile Chrome.\<close>

definition fails :: "jsval \<Rightarrow> options \<Rightarrow> native option result" where
  "fails title opts = Throws (AgentError ''Illegal constructor'')"

definition env_none :: env where
  "env_none = \<lparr>desktop_supported = False, chrome_supported = False,
     firefox_supported = False, ms_supported = False, webkit_supported = False,
     desktop_create = fails, webkit_create = fails, firefox_create = fails,
     ms_create = fails, permission_has = True\<rparr>"

definition env_desktop :: env where
  "env_desktop = env_none\<lparr>desktop_supported := True, desktop_create := makes_record\<rparr>"

text \<open>Three open notifications, the last two with the same tag.\<close>

definition two_tagged :: state where
  "two_tagged = init\<lparr>currentId := 3,
     notifications := [(0, Obj 0), (1, Obj 1), (2, Obj 2)],
     heap := [plain (JString ''a''), plain (JString ''b''), plain (JString ''b'')]\<rparr>"


text \<open>
  Mobile Chrome: the desktop agent is supported but its \<open>create\<close> throws, and the
  Service-Worker agent is supported.
\<close>

definition env_android :: env where
  "env_android = env_none\<lparr>desktop_supported := True, chrome_supported := True\<rparr>"

text \<open>Firefox mobile, with an agent that returns its record.\<close>

definition env_firefox :: env where
  "env_firefox = env_none\<lparr>firefox_supported := True, firefox_create := makes_record\<rparr>"

text \<open>Options with a tag, a timeout and two callbacks.\<close>

definition with_callbacks :: options where
  "with_callbacks = empty_options\<lparr>opt_tag := JString ''mail'', timeout := JNumber 4000,
     onClick := JFunction 1, onClose := JFunction 2\<rparr>"

text \<open>The Service-Worker agent supported, and no other.\<close>

definition env_worker_only :: env where
  "env_worker_only = env_none\<lparr>chrome_supported := True\<rparr>"

text \<open>
  The request that a first \<open>create\<close> without options leaves with the Service-Worker
  agent, and the state of \<open>_createCallback\<close> then.
\<close>

definition android_request :: sw_request where
  "android_request = \<lparr>req_id = 0, req_options = empty_options, stage = AwaitReady\<rparr>"

definition android_pending :: state where
  "android_pending = init\<lparr>calls :=
     [IsSupported Desktop, Create Desktop, IsSupported Chrome, Create Chrome]\<rparr>"

text \<open>
  Permission not yet granted: with the desktop agent of \<open>env_desktop\<close>, and with no
  agent at all.
\<close>

definition env_prompting :: env where
  "env_prompting = env_desktop\<lparr>permission_has := False\<rparr>"

definition env_prompting_none :: env where
  "env_prompting_none = env_none\<lparr>permission_has := False\<rparr>"

text \<open>
  Mobile Chrome, two creations before the worker has answered either; then the answers,
  a list of one record and a list of two.
\<close>

definition two_in_flight :: state where
  "two_in_flight =
     snd (create env_android (JString ''b'') None
       (snd (create env_android (JString ''a'') None init)))"

definition both_listed :: state where
  "both_listed =
     snd (snd (worker_signals
       [WorkerReady, DisplaySuccess,
        NotificationList [plain (JString ''a''), plain (JString ''b'')]]
       android_request (Resolved EmptyHandle)
       (snd (snd (worker_signals
          [WorkerReady, DisplaySuccess, NotificationList [plain (JString ''a'')]]
          android_request (Resolved EmptyHandle) two_in_flight)))))"

text \<open>
  Mobile Chrome, two creations. The worker answers the first with an empty list of
  notifications, the second with a list of one record.
\<close>

definition after_empty_list :: state where
  "after_empty_list =
     snd (snd (worker_signals [WorkerReady, DisplaySuccess, NotificationList []]
       android_request (Resolved EmptyHandle)
       (snd (create env_android (JString ''a'') None init))))"

definition stuck :: state where
  "stuck =
     snd (snd (worker_signals
       [WorkerReady, DisplaySuccess, NotificationList [plain (JString ''b'')]]
       (android_request\<lparr>req_id := 1\<rparr>) (Resolved EmptyHandle)
       (snd (create env_android (JString ''b'') None after_empty_list))))"

section \<open>Properties of the registry operations\<close>

lemma obj_get_absent: "\<not> hasOwnProperty xs k \<Longrightarrow> obj_get xs k = Undefined"
  by (simp add: obj_get_def hasOwnProperty_def map_of_eq_None_iff [THEN iffD2]
        split: option.splits)

lemma hasOwnProperty_delete: "\<not> hasOwnProperty (obj_delete k xs) k"
  by (auto simp: hasOwnProperty_def obj_delete_def)

lemma obj_get_present: "obj_get xs k = Obj r \<Longrightarrow> hasOwnProperty xs k"
  by (auto simp: obj_get_def hasOwnProperty_def split: option.splits
        dest: map_of_SomeD intro: rev_image_eqI)

lemma closeNotification_undefined:
  "obj_get (notifications s) ident = Undefined \<Longrightarrow>
     closeNotification e ident s = (Returns False, s)"
  by (simp add: closeNotification_def)

lemma closeNotification_notifications:
  "notifications (snd (closeNotification e ident s)) =
     (case obj_get (notifications s) ident of
        Undefined \<Rightarrow> notifications s
      | Obj r \<Rightarrow> obj_delete ident (notifications s))"
  by (auto simp: closeNotification_def removeNotification_def log_def Let_def obj_get_absent
        split: slot.splits)

lemma closeNotification_outcome:
  "obj_get (notifications s) ident = Obj r \<Longrightarrow>
     fst (closeNotification e ident s) = Returns True \<or>
     fst (closeNotification e ident s) = Throws UnableToClose"
  by (auto simp: closeNotification_def removeNotification_def Let_def dest: obj_get_present)


text \<open>The calls of a closure that finds its record.\<close>

lemma closeNotification_calls:
  "obj_get (notifications s) ident = Obj r \<Longrightarrow>
   calls (snd (closeNotification e ident s)) =
     calls s @
     (if desktop_supported e then [IsSupported Desktop, Close Desktop (Some r)]
      else if webkit_supported e
        then [IsSupported Desktop, IsSupported WebKit, Close WebKit (Some r)]
      else if ms_supported e
        then [IsSupported Desktop, IsSupported WebKit, IsSupported MS, Close MS None]
      else [IsSupported Desktop, IsSupported WebKit, IsSupported MS])"
  by (simp add: closeNotification_def removeNotification_def log_def Let_def)

text \<open>
  C8. Closing an id that the registry does not have returns \<open>false\<close>, throws nothing and
  changes nothing, through \<open>_closeNotification\<close>, \<open>_removeNotification\<close> and the
  handle alike; and whatever a first closure of an id did, a second closure of the same
  id is such a no-op.
\<close>

theorem closing_absent_id_is_noop:
  "(\<not> hasOwnProperty (notifications s) ident \<longrightarrow>
      closeNotification e ident s = (Returns False, s) \<and>
      removeNotification ident s = (False, s) \<and>
      handle_close e (Wrapper ident) s = (Returns (), s)) \<and>
   closeNotification e ident (snd (closeNotification e ident s)) =
     (Returns False, snd (closeNotification e ident s))"
proof (intro conjI impI)
  assume a: "\<not> hasOwnProperty (notifications s) ident"
  then show c: "closeNotification e ident s = (Returns False, s)"
    by (simp add: closeNotification_undefined obj_get_absent)
  from a show "removeNotification ident s = (False, s)"
    by (simp add: removeNotification_def)
  from c show "handle_close e (Wrapper ident) s = (Returns (), s)"
    by (simp add: handle_close_def)
next
  let ?s' = "snd (closeNotification e ident s)"
  have "obj_get (notifications ?s') ident = Undefined"
    by (cases "obj_get (notifications s) ident")
       (simp_all add: closeNotification_notifications obj_get_absent hasOwnProperty_delete)
  then show "closeNotification e ident ?s' = (Returns False, ?s')"
    by (rule closeNotification_undefined)
qed

theorem closing_absent_id_is_noop_witness:
  "\<not> hasOwnProperty (notifications two_tagged) 7 \<and>
   closeNotification env_desktop 7 two_tagged = (Returns False, two_tagged) \<and>
   removeNotification 7 two_tagged = (False, two_tagged) \<and>
   handle_close env_desktop (Wrapper 7) two_tagged = (Returns (), two_tagged)"
proof -
  have a: "\<not> hasOwnProperty (notifications two_tagged) 7"
    by (simp add: hasOwnProperty_def two_tagged_def init_def)
  with closing_absent_id_is_noop [of two_tagged 7 env_desktop] show ?thesis
    by blast
qed

section \<open>Closing by tag\<close>

lemma close_loop_first_match:
  "list_all (\<lambda>k. obj_get (notifications s) k \<noteq> Undefined) ks \<Longrightarrow>
   close_loop e t ks s =
     (case find (matches t s) ks of
        None \<Rightarrow> (Returns JUndefined, s)
      | Some k \<Rightarrow>
          (case closeNotification e k s of
             (Returns b, s') \<Rightarrow> (Returns (JBool b), s')
           | (Throws x, s') \<Rightarrow> (Throws x, s')))"
proof (induction ks)
  case Nil
  show ?case by simp
next
  case (Cons k ks)
  then obtain r where r: "obj_get (notifications s) k = Obj r"
    by (cases "obj_get (notifications s) k") auto
  show ?case
  proof (cases "tag (deref (heap s) r) = t")
    case True
    with r show ?thesis by (simp add: matches_def)
  next
    case False
    with r Cons show ?thesis by (simp add: matches_def)
  qed
qed

lemma find_matches_record:
  "find (matches t s) ks = Some k \<Longrightarrow> \<exists>r. obj_get (notifications s) k = Obj r"
proof (induction ks)
  case Nil
  then show ?case by simp
next
  case (Cons a ks)
  then show ?case
    by (cases "obj_get (notifications s) a") (auto simp: matches_def split: if_splits)
qed

text \<open>An entry that holds \<open>undefined\<close> ends the scan of \<open>close(tag)\<close> with a TypeError.\<close>

lemma close_loop_undefined_entry:
  "obj_get (notifications s) k = Undefined \<Longrightarrow>
     close_loop e t (k # ks) s = (Throws TypeError, s)"
  by simp

lemma close_loop_no_match:
  "list_all (\<lambda>k. case obj_get (notifications s) k of
                    Undefined \<Rightarrow> False
                  | Obj r \<Rightarrow> tag (deref (heap s) r) \<noteq> t) ks \<Longrightarrow>
   close_loop e t ks s = (Returns JUndefined, s)"
  by (induction ks) (auto split: slot.splits)

lemma close_loop_at_most_first_match:
  "notifications (snd (close_loop e t ks s)) = notifications s \<or>
   (\<exists>k. find (matches t s) ks = Some k \<and>
        notifications (snd (close_loop e t ks s)) = obj_delete k (notifications s))"
proof (induction ks)
  case Nil
  show ?case by simp
next
  case (Cons k ks)
  show ?case
  proof (cases "obj_get (notifications s) k")
    case Undefined
    then show ?thesis by simp
  next
    case (Obj r)
    show ?thesis
    proof (cases "tag (deref (heap s) r) = t")
      case True
      obtain res s' where c: "closeNotification e k s = (res, s')"
        by (cases "closeNotification e k s")
      with closeNotification_notifications [of e k s] Obj
      have "notifications s' = obj_delete k (notifications s)"
        by simp
      with Obj True c show ?thesis
        by (cases res) (simp_all add: matches_def)
    next
      case False
      with Obj Cons show ?thesis
        by (simp add: matches_def)
    qed
  qed
qed

text \<open>
  What \<open>close(tag)\<close> does where it does not raise. Whatever the registry holds, it
  removes no entry or exactly one, and the one it removes is the first match. When every
  entry has a tag and none is the given one, it returns \<open>undefined\<close>, which is false
  in a condition, and changes nothing. On a registry of records with a match, it is one
  \<open>_closeNotification\<close> of the first match (with the agent's \<open>close\<close> that
  \<open>closeNotification_calls\<close> shows): that entry alone leaves the registry, whatever
  other entries have the tag, and the result is \<open>true\<close> unless no agent can close.
\<close>

lemma close_tag_first_match_only:
  "(notifications (snd (close e t s)) = notifications s \<or>
    (\<exists>k. first_match t s = Some k \<and>
         notifications (snd (close e t s)) = obj_delete k (notifications s))) \<and>
   (no_tag_matches t s \<longrightarrow>
      close e t s = (Returns JUndefined, s) \<and> \<not> truthy JUndefined) \<and>
   (all_records s \<longrightarrow>
      (\<forall>k. first_match t s = Some k \<longrightarrow>
         close e t s =
           (case closeNotification e k s of
              (Returns b, s') \<Rightarrow> (Returns (JBool b), s')
            | (Throws x, s') \<Rightarrow> (Throws x, s')) \<and>
         notifications (snd (close e t s)) = obj_delete k (notifications s) \<and>
         (fst (close e t s) = Returns (JBool True) \<or>
          fst (close e t s) = Throws UnableToClose)))"
proof (intro conjI allI impI)
  show "notifications (snd (close e t s)) = notifications s \<or>
    (\<exists>k. first_match t s = Some k \<and>
         notifications (snd (close e t s)) = obj_delete k (notifications s))"
    unfolding close_def first_match_def by (rule close_loop_at_most_first_match)
next
  assume "no_tag_matches t s"
  then show "close e t s = (Returns JUndefined, s)"
    unfolding close_def no_tag_matches_def by (rule close_loop_no_match)
next
  show "\<not> truthy JUndefined" by simp
next
  fix k
  assume a: "all_records s" and k: "first_match t s = Some k"
  have spec: "close e t s =
     (case first_match t s of
        None \<Rightarrow> (Returns JUndefined, s)
      | Some k \<Rightarrow>
          (case closeNotification e k s of
             (Returns b, s') \<Rightarrow> (Returns (JBool b), s')
           | (Throws x, s') \<Rightarrow> (Throws x, s')))"
    using a unfolding close_def first_match_def all_records_def
    by (rule close_loop_first_match)
  with k show c: "close e t s =
     (case closeNotification e k s of
        (Returns b, s') \<Rightarrow> (Returns (JBool b), s')
      | (Throws x, s') \<Rightarrow> (Throws x, s'))" by simp
  from k obtain r where r: "obj_get (notifications s) k = Obj r"
    unfolding first_match_def by (blast dest: find_matches_record)
  have "snd (close e t s) = snd (closeNotification e k s)"
    unfolding c by (simp split: prod.splits result.splits)
  with r show "notifications (snd (close e t s)) = obj_delete k (notifications s)"
    by (simp add: closeNotification_notifications)
  from closeNotification_outcome [OF r, of e]
  show "fst (close e t s) = Returns (JBool True) \<or> fst (close e t s) = Throws UnableToClose"
    unfolding c by (auto split: prod.splits result.splits)
qed

lemma close_tag_first_match_only_example:
  "no_tag_matches (JString ''c'') two_tagged \<and>
   close env_desktop (JString ''c'') two_tagged = (Returns JUndefined, two_tagged) \<and>
   all_records two_tagged \<and>
   first_match (JString ''b'') two_tagged = Some 1 \<and>
   fst (close env_desktop (JString ''b'') two_tagged) = Returns (JBool True) \<and>
   notifications (snd (close env_desktop (JString ''b'') two_tagged)) = [(0, Obj 0), (2, Obj 2)]"
proof -
  have a: "all_records two_tagged"
    by (simp add: all_records_def two_tagged_def init_def obj_get_def)
  have b: "first_match (JString ''b'') two_tagged = Some 1"
    by (simp add: first_match_def matches_def two_tagged_def init_def obj_get_def deref_def
          plain_def)
  have c: "no_tag_matches (JString ''c'') two_tagged"
    by (simp add: no_tag_matches_def two_tagged_def init_def obj_get_def deref_def plain_def)
  have d: "obj_delete 1 (notifications two_tagged) = [(0, Obj 0), (2, Obj 2)]"
    by (simp add: obj_delete_def two_tagged_def init_def)
  have e: "fst (closeNotification env_desktop 1 two_tagged) = Returns True"
    by (simp add: closeNotification_def removeNotification_def hasOwnProperty_def obj_get_def
          two_tagged_def init_def env_desktop_def env_none_def log_def obj_delete_def)
  from close_tag_first_match_only [of env_desktop "JString ''c''" two_tagged] c
  have 1: "close env_desktop (JString ''c'') two_tagged = (Returns JUndefined, two_tagged)"
    by blast
  from close_tag_first_match_only [of env_desktop "JString ''b''" two_tagged] a b
  have "fst (close env_desktop (JString ''b'') two_tagged) = Returns (JBool True) \<or>
      fst (close env_desktop (JString ''b'') two_tagged) = Throws UnableToClose"
    and "close env_desktop (JString ''b'') two_tagged =
      (case closeNotification env_desktop 1 two_tagged of
         (Returns b, s') \<Rightarrow> (Returns (JBool b), s')
       | (Throws x, s') \<Rightarrow> (Throws x, s'))"
    and "notifications (snd (close env_desktop (JString ''b'') two_tagged)) =
      obj_delete 1 (notifications two_tagged)"
    by blast+
  with d e
  have 2: "fst (close env_desktop (JString ''b'') two_tagged) = Returns (JBool True) \<and>
     notifications (snd (close env_desktop (JString ''b'') two_tagged)) = [(0, Obj 0), (2, Obj 2)]"
    by (auto split: prod.splits result.splits)
  from a b c 1 2 show ?thesis by simp
qed

section \<open>Closing when no agent can close\<close>



section \<open>Dispatch\<close>

lemma calls_addEventListener [simp]: "calls (addEventListener r ev h s) = calls s"
  by (simp add: addEventListener_def)

lemma calls_finish [simp]: "calls (snd (finish opts n p s)) = calls s"
  by (simp add: finish_def addNotification_def prepareNotification_def Let_def
        split: option.splits)

lemma calls_agent_create [simp]:
  "calls (snd (agent_create a outcome s)) = calls s @ [Create a]"
  by (simp add: agent_create_def alloc_def log_def Let_def split: result.splits option.splits)

lemma agent_create_eq:
  "agent_create a outcome s =
     (case outcome of
        Throws x \<Rightarrow> (Throws x, log (Create a) s)
      | Returns None \<Rightarrow> (Returns None, log (Create a) s)
      | Returns (Some n) \<Rightarrow>
          (Returns (Some (length (heap s))), (log (Create a) s)\<lparr>heap := heap s @ [n]\<rparr>))"
  by (simp add: agent_create_def alloc_def log_def Let_def split: result.splits option.splits)

lemma probe_cases:
  assumes "probe_in_order e fallback_order = (probes, r)"
  obtains
    (desktop) "desktop_supported e" "r = Some Desktop" "probes = [IsSupported Desktop]"
  | (webkit) "\<not> desktop_supported e" "webkit_supported e" "r = Some WebKit"
      "probes = [IsSupported Desktop, IsSupported WebKit]"
  | (firefox) "\<not> desktop_supported e" "\<not> webkit_supported e" "firefox_supported e"
      "r = Some Firefox" "probes = [IsSupported Desktop, IsSupported WebKit, IsSupported Firefox]"
  | (ms) "\<not> desktop_supported e" "\<not> webkit_supported e" "\<not> firefox_supported e"
      "ms_supported e" "r = Some MS"
      "probes = [IsSupported Desktop, IsSupported WebKit, IsSupported Firefox, IsSupported MS]"
  | (none) "\<not> desktop_supported e" "\<not> webkit_supported e" "\<not> firefox_supported e"
      "\<not> ms_supported e" "r = None"
      "probes = [IsSupported Desktop, IsSupported WebKit, IsSupported Firefox, IsSupported MS]"
  using assms
  by (auto simp: fallback_order_def isSupported_def split: if_splits)

lemma createCallback_none:
  assumes "probe_in_order e fallback_order = (probes, None)"
  shows "createCallback e title options0 p s =
     (Throws UnknownInterface, p, s\<lparr>calls := calls s @ probes\<rparr>)"
  using assms
  by (cases rule: probe_cases) (simp_all add: createCallback_def log_def)

lemma createCallback_throws:
  assumes "probe_in_order e fallback_order = (probes, Some a)"
    and "agent_creates e a title (options_or_empty options0) = Throws x"
    and "a \<noteq> Desktop"
  shows "createCallback e title options0 p s =
     (Throws x, p, s\<lparr>calls := calls s @ probes @ [Create a]\<rparr>)"
  using assms(1)
proof (cases rule: probe_cases)
  case desktop
  with assms show ?thesis by simp
next
  case webkit
  with assms show ?thesis
    by (simp add: createCallback_def log_def agent_create_eq agent_creates_def)
next
  case firefox
  with assms show ?thesis
    by (simp add: createCallback_def log_def agent_create_eq agent_creates_def)
next
  case ms
  with assms show ?thesis
    by (simp add: createCallback_def log_def agent_create_eq agent_creates_def)
next
  case none
  then show ?thesis by simp
qed

lemma createCallback_desktop_throws:
  assumes "desktop_supported e"
    and "desktop_create e title (options_or_empty options0) = Throws x"
  shows "createCallback e title options0 p s =
     (if chrome_supported e
      then (Returns (Some \<lparr>req_id = currentId s, req_options = options_or_empty options0,
                             stage = AwaitReady\<rparr>),
            resolve EmptyHandle p,
            s\<lparr>calls := calls s @
              [IsSupported Desktop, Create Desktop, IsSupported Chrome, Create Chrome]\<rparr>)
      else (Returns None, resolve EmptyHandle p,
            s\<lparr>calls := calls s @ [IsSupported Desktop, Create Desktop, IsSupported Chrome]\<rparr>))"
  using assms
  by (simp add: createCallback_def log_def agent_create_eq chrome_create_def finish_def)

lemma createCallback_null:
  assumes "probe_in_order e fallback_order = (probes, Some a)"
    and "agent_creates e a title (options_or_empty options0) = Returns None"
  shows "createCallback e title options0 p s =
     (Returns None, resolve EmptyHandle p, s\<lparr>calls := calls s @ probes @ [Create a]\<rparr>)"
  using assms(1)
proof (cases rule: probe_cases)
  case desktop
  with assms show ?thesis
    by (simp add: createCallback_def log_def agent_create_eq agent_creates_def finish_def)
next
  case webkit
  with assms show ?thesis
    by (simp add: createCallback_def log_def agent_create_eq agent_creates_def finish_def)
next
  case firefox
  with assms show ?thesis
    by (simp add: createCallback_def log_def agent_create_eq agent_creates_def finish_def)
next
  case ms
  with assms show ?thesis
    by (simp add: createCallback_def log_def agent_create_eq agent_creates_def finish_def)
next
  case none
  then show ?thesis by simp
qed

lemma createCallback_record:
  assumes "probe_in_order e fallback_order = (probes, Some a)"
    and "agent_creates e a title (options_or_empty options0) = Returns (Some n)"
  shows "createCallback e title options0 p s =
     (Returns None,
      finish (options_or_empty options0) (if a = Firefox then None else Some (length (heap s))) p
        (s\<lparr>calls := calls s @ probes @ [Create a], heap := heap s @ [n]\<rparr>))"
  using assms(1)
proof (cases rule: probe_cases)
  case desktop
  with assms show ?thesis
    by (simp add: createCallback_def log_def agent_create_eq agent_creates_def split_beta)
next
  case webkit
  with assms show ?thesis
    by (simp add: createCallback_def log_def agent_create_eq agent_creates_def split_beta)
next
  case firefox
  with assms show ?thesis
    by (simp add: createCallback_def log_def agent_create_eq agent_creates_def split_beta)
next
  case ms
  with assms show ?thesis
    by (simp add: createCallback_def log_def agent_create_eq agent_creates_def split_beta)
next
  case none
  then show ?thesis by simp
qed

lemma serving_none_iff:
  "serving e = None \<longleftrightarrow>
     \<not> desktop_supported e \<and> \<not> webkit_supported e \<and> \<not> firefox_supported e \<and> \<not> ms_supported e"
  by (simp add: serving_def fallback_order_def isSupported_def)

lemma createCallback_calls:
  "calls (snd (snd (createCallback e title options0 p s))) =
     calls s @ expected_calls e title options0"
proof -
  obtain probes r where pr: "probe_in_order e fallback_order = (probes, r)"
    by (cases "probe_in_order e fallback_order")
  show ?thesis
  proof (cases r)
    case None
    with pr show ?thesis
      by (simp add: createCallback_none expected_calls_def)
  next
    case (Some a)
    note pa = pr [unfolded Some]
    show ?thesis
    proof (cases "agent_creates e a title (options_or_empty options0)")
      case (Returns v)
      then have d: "a = Desktop \<longrightarrow> \<not> throws (desktop_create e title (options_or_empty options0))"
        by (auto simp: agent_creates_def)
      from Returns pa d show ?thesis
        by (cases v)
           (auto simp: createCallback_null createCallback_record expected_calls_def)
    next
      case (Throws x)
      show ?thesis
      proof (cases "a = Desktop")
        case True
        with pa have ds: "desktop_supported e" and pd: "probes = [IsSupported Desktop]"
          by (cases rule: probe_cases; simp)+
        from True Throws have dt: "desktop_create e title (options_or_empty options0) = Throws x"
          by (simp add: agent_creates_def)
        from True pa pd show ?thesis
          by (simp add: createCallback_desktop_throws [OF ds dt] expected_calls_def dt)
      next
        case False
        with pa Throws show ?thesis
          by (simp add: createCallback_throws expected_calls_def)
      qed
    qed
  qed
qed

text \<open>
  C5. The calls of \<open>_createCallback\<close> are those of the priority order: the desktop
  agent is probed first; if it is supported it alone is asked to create, and if that
  throws the Service-Worker agent is probed, and asked to create if supported;
  otherwise the WebKit, Firefox and MS agents are probed in this order and the first
  supported one is asked to create. When none of them is supported, so in particular
  when no agent is, \<open>_createCallback\<close> throws the unknown-interface error and the
  future of \<open>create\<close> is rejected with it.
\<close>

theorem dispatch_follows_priority_order:
  "calls (snd (snd (createCallback e title options0 p s))) =
     calls s @ expected_calls e title options0 \<and>
   ((\<forall>a. \<not> isSupported e a) \<longrightarrow> serving e = None) \<and>
   (serving e = None \<longrightarrow>
      fst (createCallback e title options0 p s) = Throws UnknownInterface \<and>
      (isString title \<and> permission_has e \<longrightarrow>
         fst (create e title options0 s) =
           Returns (Rejected (Thrown UnknownInterface), None)))"
proof (intro conjI impI)
  show "calls (snd (snd (createCallback e title options0 p s))) =
     calls s @ expected_calls e title options0"
    by (rule createCallback_calls)
next
  assume "\<forall>a. \<not> isSupported e a"
  then have "\<not> isSupported e Desktop" "\<not> isSupported e WebKit" "\<not> isSupported e Firefox"
    "\<not> isSupported e MS"
    by blast+
  then show "serving e = None"
    by (simp add: serving_none_iff isSupported_def)
next
  assume n: "serving e = None"
  then obtain probes where pr: "probe_in_order e fallback_order = (probes, None)"
    by (cases "probe_in_order e fallback_order") (simp add: serving_def)
  from pr show "fst (createCallback e title options0 p s) = Throws UnknownInterface"
    by (simp add: createCallback_none)
  assume "isString title \<and> permission_has e"
  with pr show "fst (create e title options0 s) =
      Returns (Rejected (Thrown UnknownInterface), None)"
    by (simp add: create_def tryCreateCallback_def createCallback_none Let_def)
qed

theorem dispatch_follows_priority_order_witness:
  "(\<forall>a. \<not> isSupported env_none a) \<and> serving env_none = None \<and>
   isString (JString ''x'') \<and> permission_has env_none \<and>
   fst (create env_none (JString ''x'') None init) =
     Returns (Rejected (Thrown UnknownInterface), None) \<and>
   calls (snd (snd (createCallback env_android (JString ''x'') None Pending init))) =
     [IsSupported Desktop, Create Desktop, IsSupported Chrome, Create Chrome] \<and>
   calls (snd (snd (createCallback env_firefox (JString ''x'') None Pending init))) =
     [IsSupported Desktop, IsSupported WebKit, IsSupported Firefox, Create Firefox]"
proof -
  have u: "\<forall>a. \<not> isSupported env_none a"
    by (simp add: isSupported_def env_none_def split: agent.splits)
  have t: "isString (JString ''x'') \<and> permission_has env_none"
    by (simp add: env_none_def)
  have a: "expected_calls env_android (JString ''x'') None =
      [IsSupported Desktop, Create Desktop, IsSupported Chrome, Create Chrome]"
    by (simp add: expected_calls_def fallback_order_def isSupported_def env_android_def
          env_none_def fails_def)
  have f: "expected_calls env_firefox (JString ''x'') None =
      [IsSupported Desktop, IsSupported WebKit, IsSupported Firefox, Create Firefox]"
    by (simp add: expected_calls_def fallback_order_def isSupported_def env_firefox_def
          env_none_def)
  have i: "calls init = []"
    by (simp add: init_def)
  from dispatch_follows_priority_order [of env_none "JString ''x''" None Pending init] u t
  have 1: "serving env_none = None \<and> fst (create env_none (JString ''x'') None init) =
     Returns (Rejected (Thrown UnknownInterface), None)"
    by blast
  from dispatch_follows_priority_order [of env_android "JString ''x''" None Pending init] a i
  have 2: "calls (snd (snd (createCallback env_android (JString ''x'') None Pending init))) =
     [IsSupported Desktop, Create Desktop, IsSupported Chrome, Create Chrome]"
    by simp
  from dispatch_follows_priority_order [of env_firefox "JString ''x''" None Pending init] f i
  have 3: "calls (snd (snd (createCallback env_firefox (JString ''x'') None Pending init))) =
     [IsSupported Desktop, IsSupported WebKit, IsSupported Firefox, Create Firefox]"
    by simp
  from u t 1 2 3 show ?thesis by blast
qed

section \<open>Creation by a synchronous agent\<close>

lemma obj_get_obj_set: "obj_get (obj_set k v xs) k = v"
  by (induction xs) (auto simp: obj_get_def)

lemma addEventListener_fields [simp]:
  "currentId (addEventListener r ev h s) = currentId s"
  "notifications (addEventListener r ev h s) = notifications s"
  "timers (addEventListener r ev h s) = timers s"
  "messageListeners (addEventListener r ev h s) = messageListeners s"
  "length (heap (addEventListener r ev h s)) = length (heap s)"
  by (simp_all add: addEventListener_def)

lemma deref_addEventListener:
  "r < length (heap s) \<Longrightarrow>
     deref (heap (addEventListener r ev h s)) r =
       (deref (heap s) r)\<lparr>listeners := listeners (deref (heap s) r) @ [(ev, h)]\<rparr>"
  by (simp add: addEventListener_def deref_def)

lemma finish_none: "finish opts None p s = (resolve EmptyHandle p, s)"
  by (simp add: finish_def)

lemma finish_promise:
  "fst (finish opts (Some r) Pending s) = Resolved (Wrapper (currentId s))"
  by (simp add: finish_def addNotification_def prepareNotification_def Let_def)

lemma finish_registry:
  "currentId (snd (finish opts (Some r) p s)) = increment (currentId s)"
  "notifications (snd (finish opts (Some r) p s)) =
     obj_set (currentId s) (Obj r) (notifications s)"
  by (simp_all add: finish_def addNotification_def prepareNotification_def Let_def)

lemma finish_timers:
  "timers (snd (finish opts (Some r) p s)) =
     (if truthy (timeout opts) then timers s @ [(timeout opts, currentId s)] else timers s)"
  by (simp add: finish_def addNotification_def prepareNotification_def Let_def)

lemma finish_listeners:
  assumes "r < length (heap s)"
  shows "deref (heap (snd (finish opts (Some r) p s))) r =
     (deref (heap s) r)\<lparr>listeners :=
        listeners (deref (heap s) r) @ expected_listeners opts (currentId s)\<rparr>"
proof -
  define s2 where "s2 = snd (prepareNotification (currentId s) opts (snd (addNotification (Obj r) s)))"
  have h2: "heap s2 = heap s"
    by (simp add: s2_def addNotification_def prepareNotification_def)
  define s3 where "s3 = (if isFunction (onShow opts)
      then addEventListener r ''show'' (UserHandler (onShow opts)) s2 else s2)"
  define s4 where "s4 = (if isFunction (onError opts)
      then addEventListener r ''error'' (UserHandler (onError opts)) s3 else s3)"
  define s5 where "s5 = (if isFunction (onClick opts)
      then addEventListener r ''click'' (UserHandler (onClick opts)) s4 else s4)"
  define s6 where "s6 = addEventListener r ''close'' (CloseHandler (currentId s)) s5"
  define s7 where "s7 = addEventListener r ''cancel'' (CloseHandler (currentId s)) s6"
  have f: "snd (finish opts (Some r) p s) = s7"
    by (simp add: finish_def s7_def s6_def s5_def s4_def s3_def s2_def addNotification_def
          prepareNotification_def Let_def)
  from assms h2 have l2: "r < length (heap s2)" by simp
  then have l3: "r < length (heap s3)" by (simp add: s3_def)
  then have l4: "r < length (heap s4)" by (simp add: s4_def)
  then have l5: "r < length (heap s5)" by (simp add: s5_def)
  then have l6: "r < length (heap s6)" by (simp add: s6_def)
  have d3: "deref (heap s3) r = (deref (heap s) r)\<lparr>listeners := listeners (deref (heap s) r) @
      (if isFunction (onShow opts) then [(''show'', UserHandler (onShow opts))] else [])\<rparr>"
    using l2 by (simp add: s3_def deref_addEventListener h2)
  have d4: "deref (heap s4) r = (deref (heap s3) r)\<lparr>listeners := listeners (deref (heap s3) r) @
      (if isFunction (onError opts) then [(''error'', UserHandler (onError opts))] else [])\<rparr>"
    using l3 by (simp add: s4_def deref_addEventListener)
  have d5: "deref (heap s5) r = (deref (heap s4) r)\<lparr>listeners := listeners (deref (heap s4) r) @
      (if isFunction (onClick opts) then [(''click'', UserHandler (onClick opts))] else [])\<rparr>"
    using l4 by (simp add: s5_def deref_addEventListener)
  have d7: "deref (heap s7) r = (deref (heap s5) r)\<lparr>listeners := listeners (deref (heap s5) r) @
      [(''close'', CloseHandler (currentId s)), (''cancel'', CloseHandler (currentId s))]\<rparr>"
    using l5 l6 by (simp add: s7_def s6_def deref_addEventListener)
  show ?thesis
    unfolding f d7 d5 d4 d3 by (simp add: expected_listeners_def)
qed

text \<open>
  What \<open>_createCallback\<close> does with a record that the serving agent returns. For the
  desktop, WebKit and MS agents it takes the current id, stores the record in the
  registry under that id, attaches the caller's \<open>show\<close>, \<open>error\<close> and \<open>click\<close>
  callbacks (and the two closing listeners) to it, and resolves the future with the
  wrapper of that id, whose \<open>get()\<close> is the record. For the Firefox agent the
  record is dropped.
\<close>

lemma synchronous_creation_registers:
  assumes "serving e = Some a"
    and "agent_creates e a title (options_or_empty options0) = Returns (Some n)"
  shows "case createCallback e title options0 Pending s of
     (r, p', s') \<Rightarrow>
       r = Returns None \<and>
       (a \<noteq> Firefox \<longrightarrow>
          p' = Resolved (Wrapper (currentId s)) \<and>
          currentId s' = increment (currentId s) \<and>
          notifications s' = obj_set (currentId s) (Obj (length (heap s))) (notifications s) \<and>
          handle_get (Wrapper (currentId s)) s' = Returns (Obj (length (heap s))) \<and>
          deref (heap s') (length (heap s)) =
            n\<lparr>listeners := listeners n @
                 expected_listeners (options_or_empty options0) (currentId s)\<rparr>) \<and>
       (a = Firefox \<longrightarrow>
          p' = Resolved EmptyHandle \<and> currentId s' = currentId s \<and>
          notifications s' = notifications s)"
proof -
  from assms(1) obtain probes where pr: "probe_in_order e fallback_order = (probes, Some a)"
    by (cases "probe_in_order e fallback_order") (simp add: serving_def)
  let ?opts = "options_or_empty options0"
  let ?s0 = "s\<lparr>calls := calls s @ probes @ [Create a], heap := heap s @ [n]\<rparr>"
  let ?r = "length (heap s)"
  have cc: "createCallback e title options0 Pending s =
      (Returns None, finish ?opts (if a = Firefox then None else Some ?r) Pending ?s0)"
    using pr assms(2) by (rule createCallback_record)
  show ?thesis
  proof (cases "a = Firefox")
    case True
    then show ?thesis by (simp add: cc finish_none)
  next
    case False
    have r: "?r < length (heap ?s0)" by simp
    have d: "deref (heap ?s0) ?r = n" by (simp add: deref_def)
    obtain p' s' where f: "finish ?opts (Some ?r) Pending ?s0 = (p', s')"
      by (cases "finish ?opts (Some ?r) Pending ?s0")
    from finish_promise [of ?opts ?r ?s0] f have 1: "p' = Resolved (Wrapper (currentId s))"
      by simp
    from finish_registry [of ?opts ?r Pending ?s0] f
    have 2: "currentId s' = increment (currentId s)"
      and 3: "notifications s' = obj_set (currentId s) (Obj ?r) (notifications s)"
      by simp_all
    from 3 have 4: "handle_get (Wrapper (currentId s)) s' = Returns (Obj ?r)"
      by (simp add: handle_get_def obj_get_obj_set)
    from finish_listeners [OF r, of ?opts Pending] f d
    have 5: "deref (heap s') ?r = n\<lparr>listeners := listeners n @
        expected_listeners ?opts (currentId s)\<rparr>"
      by simp
    from False 1 2 3 4 5 show ?thesis by (simp add: cc f)
  qed
qed

lemma synchronous_creation_registers_example:
  "serving env_desktop = Some Desktop \<and>
   agent_creates env_desktop Desktop (JString ''x'') (options_or_empty (Some with_callbacks)) =
     Returns (Some (plain (JString ''mail''))) \<and>
   fst (snd (createCallback env_desktop (JString ''x'') (Some with_callbacks) Pending init)) =
     Resolved (Wrapper 0) \<and>
   notifications (snd (snd (createCallback env_desktop (JString ''x'') (Some with_callbacks)
     Pending init))) = [(0, Obj 0)] \<and>
   deref (heap (snd (snd (createCallback env_desktop (JString ''x'') (Some with_callbacks)
     Pending init)))) 0 =
     \<lparr>tag = JString ''mail'',
      listeners = [(''click'', UserHandler (JFunction 1)), (''close'', CloseHandler 0),
                   (''cancel'', CloseHandler 0)]\<rparr> \<and>
   serving env_firefox = Some Firefox \<and>
   agent_creates env_firefox Firefox (JString ''x'') (options_or_empty None) =
     Returns (Some (plain JUndefined)) \<and>
   fst (snd (createCallback env_firefox (JString ''x'') None Pending init)) =
     Resolved EmptyHandle \<and>
   notifications (snd (snd (createCallback env_firefox (JString ''x'') None Pending init))) = []"
proof -
  have a: "serving env_desktop = Some Desktop"
    by (simp add: serving_def fallback_order_def isSupported_def env_desktop_def env_none_def)
  have b: "agent_creates env_desktop Desktop (JString ''x'')
      (options_or_empty (Some with_callbacks)) = Returns (Some (plain (JString ''mail'')))"
    by (simp add: agent_creates_def env_desktop_def env_none_def makes_record_def
          options_or_empty_def with_callbacks_def empty_options_def)
  have c: "expected_listeners (options_or_empty (Some with_callbacks)) 0 =
      [(''click'', UserHandler (JFunction 1)), (''close'', CloseHandler 0),
       (''cancel'', CloseHandler 0)]"
    by (simp add: expected_listeners_def options_or_empty_def with_callbacks_def
          empty_options_def)
  have i: "currentId init = 0" "heap init = []" "notifications init = []"
    by (simp_all add: init_def)
  have a': "serving env_firefox = Some Firefox"
    by (simp add: serving_def fallback_order_def isSupported_def env_firefox_def env_none_def)
  have b': "agent_creates env_firefox Firefox (JString ''x'') (options_or_empty None) =
      Returns (Some (plain JUndefined))"
    by (simp add: agent_creates_def env_firefox_def env_none_def makes_record_def
          options_or_empty_def empty_options_def)
  from synchronous_creation_registers [OF a b, of init] c i
  have 1: "fst (snd (createCallback env_desktop (JString ''x'') (Some with_callbacks) Pending
        init)) = Resolved (Wrapper 0) \<and>
     notifications (snd (snd (createCallback env_desktop (JString ''x'') (Some with_callbacks)
        Pending init))) = [(0, Obj 0)] \<and>
     deref (heap (snd (snd (createCallback env_desktop (JString ''x'') (Some with_callbacks)
        Pending init)))) 0 =
       \<lparr>tag = JString ''mail'',
        listeners = [(''click'', UserHandler (JFunction 1)), (''close'', CloseHandler 0),
                     (''cancel'', CloseHandler 0)]\<rparr>"
    by (auto simp: plain_def split: prod.splits)
  from synchronous_creation_registers [OF a' b', of init] i
  have 2: "fst (snd (createCallback env_firefox (JString ''x'') None Pending init)) =
       Resolved EmptyHandle \<and>
     notifications (snd (snd (createCallback env_firefox (JString ''x'') None Pending init))) = []"
    by (auto split: prod.splits)
  from a b a' b' 1 2 show ?thesis by blast
qed

text \<open>
  C4, at the input where the code departs from it. The Firefox agent serves the creation
  and returns its record. \<open>_createCallback\<close> calls \<open>create\<close> of this agent without
  keeping what it returns, as it does for no other synchronous agent: no id is taken,
  nothing is registered, no listener is attached and the future resolves with the empty
  handle.
\<close>

theorem firefox_record_is_dropped:
  "serving env_firefox = Some Firefox \<and>
   firefox_create env_firefox (JString ''x'') empty_options = Returns (Some (plain JUndefined)) \<and>
   createCallback env_firefox (JString ''x'') None Pending init =
     (Returns None, Resolved EmptyHandle,
      init\<lparr>calls := [IsSupported Desktop, IsSupported WebKit, IsSupported Firefox,
                      Create Firefox],
           heap := [plain JUndefined]\<rparr>) \<and>
   currentId (snd (snd (createCallback env_firefox (JString ''x'') None Pending init))) = 0 \<and>
   notifications (snd (snd (createCallback env_firefox (JString ''x'') None Pending init))) = []"
  by (simp add: serving_def fallback_order_def isSupported_def env_firefox_def env_none_def
        makes_record_def empty_options_def options_or_empty_def createCallback_def
        agent_create_eq log_def finish_def init_def)

section \<open>Creation through the Service-Worker agent\<close>

lemma alloc_list_eq:
  "alloc_list ns s = ([length (heap s) ..< length (heap s) + length ns], s\<lparr>heap := heap s @ ns\<rparr>)"
proof (induction ns arbitrary: s)
  case Nil
  show ?case by simp
next
  case (Cons n ns)
  have u: "[length (heap s) ..< length (heap s) + length (n # ns)] =
      length (heap s) # [Suc (length (heap s)) ..< Suc (length (heap s)) + length ns]"
    by (simp add: upt_rec)
  show ?case
    unfolding u by (simp add: alloc_def Cons)
qed

lemma last_entry_upt:
  "last_entry [i ..< i + n] = (if n = 0 then Undefined else Obj (i + n - 1))"
  by (cases n) (simp_all add: last_entry_def)

lemma swCallback_promise: "fst (swCallback opts rs q s) = resolve (Wrapper (currentId s)) q"
  by (simp add: swCallback_def addNotification_def prepareNotification_def Let_def)

lemma swCallback_fields:
  "currentId (snd (swCallback opts rs q s)) = increment (currentId s)"
  "notifications (snd (swCallback opts rs q s)) =
     obj_set (currentId s) (last_entry rs) (notifications s)"
  "heap (snd (swCallback opts rs q s)) = heap s"
  "calls (snd (swCallback opts rs q s)) = calls s"
  "messageListeners (snd (swCallback opts rs q s)) = Suc (messageListeners s)"
  by (simp_all add: swCallback_def addNotification_def prepareNotification_def Let_def)

lemma worker_signal_settled:
  "stage req = Delivered \<or> stage req = Failed \<Longrightarrow> worker_signal sig req q s = (req, q, s)"
  by (auto simp: worker_signal_def chrome_signal_def split: sw_signal.splits)

lemma worker_signals_settled:
  "stage req = Delivered \<or> stage req = Failed \<Longrightarrow> worker_signals sigs req q s = (req, q, s)"
  by (induction sigs) (simp_all add: worker_signal_settled)

lemma worker_signal_ready:
  "stage req = AwaitReady \<Longrightarrow>
     worker_signal sig req q s =
       (case sig of
          WorkerReady \<Rightarrow> (req\<lparr>stage := AwaitDisplay\<rparr>, q, log (ShowNotification (req_id req)) s)
        | Rejection \<Rightarrow> (req\<lparr>stage := Failed\<rparr>, q, s)
        | _ \<Rightarrow> (req, q, s))"
  by (simp add: worker_signal_def chrome_signal_def split: sw_signal.splits)

lemma worker_signal_display:
  "stage req = AwaitDisplay \<Longrightarrow>
     worker_signal sig req q s =
       (case sig of
          DisplaySuccess \<Rightarrow> (req\<lparr>stage := AwaitList\<rparr>, q, s)
        | Rejection \<Rightarrow> (req\<lparr>stage := Failed\<rparr>, q, s)
        | _ \<Rightarrow> (req, q, s))"
  by (simp add: worker_signal_def chrome_signal_def split: sw_signal.splits)

lemma worker_signal_list:
  "stage req = AwaitList \<Longrightarrow>
     worker_signal (NotificationList ns) req q s =
       (req\<lparr>stage := Delivered\<rparr>,
        swCallback (req_options req) [length (heap s) ..< length (heap s) + length ns] q
          (s\<lparr>heap := heap s @ ns, calls := calls s @ [PostMessage]\<rparr>))"
  by (simp add: worker_signal_def chrome_signal_def alloc_list_eq log_def split_beta)

lemma callback_needs_display:
  "stage req = AwaitDisplay \<Longrightarrow>
   \<not> untouched (snd (worker_signals sigs req q s)) (q, s) \<Longrightarrow>
   \<exists>b c. sigs = b @ DisplaySuccess # c"
proof (induction sigs arbitrary: req s)
  case Nil
  then show ?case by (simp add: untouched_def)
next
  case (Cons sig sigs)
  show ?case
  proof (cases sig)
    case DisplaySuccess
    then have "sig # sigs = [] @ DisplaySuccess # sigs" by simp
    then show ?thesis by blast
  next
    case Rejection
    with Cons.prems show ?thesis
      by (simp add: worker_signal_display worker_signals_settled untouched_def)
  next
    case WorkerReady
    with Cons.prems have "\<not> untouched (snd (worker_signals sigs req q s)) (q, s)"
      by (simp add: worker_signal_display)
    from Cons.IH [OF Cons.prems(1) this] obtain b c where "sigs = b @ DisplaySuccess # c"
      by blast
    then have "sig # sigs = (sig # b) @ DisplaySuccess # c" by simp
    then show ?thesis by blast
  next
    case (NotificationList ns)
    with Cons.prems have "\<not> untouched (snd (worker_signals sigs req q s)) (q, s)"
      by (simp add: worker_signal_display)
    from Cons.IH [OF Cons.prems(1) this] obtain b c where "sigs = b @ DisplaySuccess # c"
      by blast
    then have "sig # sigs = (sig # b) @ DisplaySuccess # c" by simp
    then show ?thesis by blast
  qed
qed

lemma callback_needs_ready:
  "stage req = AwaitReady \<Longrightarrow>
   \<not> untouched (snd (worker_signals sigs req q s)) (q, s) \<Longrightarrow>
   \<exists>a b c. sigs = a @ WorkerReady # b @ DisplaySuccess # c"
proof (induction sigs arbitrary: req s)
  case Nil
  then show ?case by (simp add: untouched_def)
next
  case (Cons sig sigs)
  show ?case
  proof (cases sig)
    case WorkerReady
    let ?req = "req\<lparr>stage := AwaitDisplay\<rparr>"
    let ?s = "log (ShowNotification (req_id req)) s"
    from WorkerReady Cons.prems
    have "\<not> untouched (snd (worker_signals sigs ?req q ?s)) (q, ?s)"
      by (simp add: worker_signal_ready untouched_def log_def)
    from callback_needs_display [OF _ this] obtain b c where "sigs = b @ DisplaySuccess # c"
      by auto
    with WorkerReady have "sig # sigs = [] @ WorkerReady # b @ DisplaySuccess # c" by simp
    then show ?thesis by blast
  next
    case Rejection
    with Cons.prems show ?thesis
      by (simp add: worker_signal_ready worker_signals_settled untouched_def)
  next
    case DisplaySuccess
    with Cons.prems have "\<not> untouched (snd (worker_signals sigs req q s)) (q, s)"
      by (simp add: worker_signal_ready)
    from Cons.IH [OF Cons.prems(1) this] obtain a b c
      where "sigs = a @ WorkerReady # b @ DisplaySuccess # c"
      by blast
    then have "sig # sigs = (sig # a) @ WorkerReady # b @ DisplaySuccess # c" by simp
    then show ?thesis by blast
  next
    case (NotificationList ns)
    with Cons.prems have "\<not> untouched (snd (worker_signals sigs req q s)) (q, s)"
      by (simp add: worker_signal_ready)
    from Cons.IH [OF Cons.prems(1) this] obtain a b c
      where "sigs = a @ WorkerReady # b @ DisplaySuccess # c"
      by blast
    then have "sig # sigs = (sig # a) @ WorkerReady # b @ DisplaySuccess # c" by simp
    then show ?thesis by blast
  qed
qed

lemma worker_delivers:
  assumes "stage req = AwaitReady"
  shows "worker_signals [WorkerReady, DisplaySuccess, NotificationList ns] req q s =
     (req\<lparr>stage := Delivered\<rparr>,
      swCallback (req_options req) [length (heap s) ..< length (heap s) + length ns] q
        (s\<lparr>heap := heap s @ ns,
           calls := calls s @ [ShowNotification (req_id req), PostMessage]\<rparr>))"
  using assms
  by (simp add: worker_signal_ready worker_signal_display worker_signal_list log_def split_beta)

lemma createCallback_skips_worker:
  assumes "\<not> desktop_supported e"
  shows "Create Chrome \<notin> set (expected_calls e title options0)"
proof -
  obtain probes r where pr: "probe_in_order e fallback_order = (probes, r)"
    by (cases "probe_in_order e fallback_order")
  from pr show ?thesis
    by (cases rule: probe_cases) (insert pr assms, simp_all add: expected_calls_def)
qed

text \<open>
  C3, as amended. With the desktop agent unsupported, \<open>_createCallback\<close> never asks
  the Service-Worker agent to create. With the desktop agent supported, its
  \<open>create\<close> throwing and the Service-Worker agent supported, \<open>_createCallback\<close>
  leaves a request with that agent and registers nothing yet. Whatever signals reach the
  request, the future, the registry and the counter are touched only once worker-ready
  and then display-success have fired. When the list of notifications then arrives and
  is not empty, the callback takes the current id and increments the counter, calls
  \<open>resolve\<close> with the wrapper of that id, and the wrapper's \<open>get()\<close> is the last
  record of the list. (What the future holds by then is the matter of C1.)
\<close>

theorem worker_creation_after_desktop_failure:
  "(\<not> desktop_supported e \<longrightarrow>
      (\<exists>cs. calls (snd (snd (createCallback e title options0 p s))) = calls s @ cs \<and>
            Create Chrome \<notin> set cs)) \<and>
   (desktop_supported e \<and> throws (desktop_create e title (options_or_empty options0)) \<and>
    chrome_supported e \<longrightarrow>
      (let req = \<lparr>req_id = currentId s, req_options = options_or_empty options0,
                   stage = AwaitReady\<rparr>
       in fst (createCallback e title options0 p s) = Returns (Some req) \<and>
          notifications (snd (snd (createCallback e title options0 p s))) = notifications s \<and>
          currentId (snd (snd (createCallback e title options0 p s))) = currentId s \<and>
          (\<forall>sigs. \<not> untouched (snd (worker_signals sigs req q s')) (q, s') \<longrightarrow>
             (\<exists>a b c. sigs = a @ WorkerReady # b @ DisplaySuccess # c)) \<and>
          (ns \<noteq> [] \<longrightarrow>
             (case worker_signals [WorkerReady, DisplaySuccess, NotificationList ns] req q s' of
                (req', q', s'') \<Rightarrow>
                  q' = resolve (Wrapper (currentId s')) q \<and>
                  handle_get (Wrapper (currentId s')) s'' =
                    Returns (Obj (length (heap s') + length ns - 1)) \<and>
                  deref (heap s'') (length (heap s') + length ns - 1) = last ns \<and>
                  currentId s'' = increment (currentId s')))))"
proof (intro conjI impI)
  assume "\<not> desktop_supported e"
  then have "Create Chrome \<notin> set (expected_calls e title options0)"
    by (rule createCallback_skips_worker)
  with createCallback_calls [of e title options0 p s]
  show "\<exists>cs. calls (snd (snd (createCallback e title options0 p s))) = calls s @ cs \<and>
      Create Chrome \<notin> set cs"
    by blast
next
  assume a: "desktop_supported e \<and>
    throws (desktop_create e title (options_or_empty options0)) \<and> chrome_supported e"
  then obtain x where x: "desktop_create e title (options_or_empty options0) = Throws x"
    by (cases "desktop_create e title (options_or_empty options0)") auto
  let ?req = "\<lparr>req_id = currentId s, req_options = options_or_empty options0,
    stage = AwaitReady\<rparr>"
  have st: "stage ?req = AwaitReady" by simp
  from a x have cc: "createCallback e title options0 p s =
      (Returns (Some ?req), resolve EmptyHandle p,
       s\<lparr>calls := calls s @
         [IsSupported Desktop, Create Desktop, IsSupported Chrome, Create Chrome]\<rparr>)"
    by (simp add: createCallback_desktop_throws)
  have only_after: "\<forall>sigs. \<not> untouched (snd (worker_signals sigs ?req q s')) (q, s') \<longrightarrow>
      (\<exists>a b c. sigs = a @ WorkerReady # b @ DisplaySuccess # c)"
    using callback_needs_ready [OF st] by blast
  have delivered: "case worker_signals [WorkerReady, DisplaySuccess, NotificationList ns] ?req q s' of
      (req', q', s'') \<Rightarrow>
        q' = resolve (Wrapper (currentId s')) q \<and>
        handle_get (Wrapper (currentId s')) s'' =
          Returns (Obj (length (heap s') + length ns - 1)) \<and>
        deref (heap s'') (length (heap s') + length ns - 1) = last ns \<and>
        currentId s'' = increment (currentId s')"
    if ne: "ns \<noteq> []"
  proof -
    let ?s0 = "s'\<lparr>heap := heap s' @ ns,
      calls := calls s' @ [ShowNotification (req_id ?req), PostMessage]\<rparr>"
    let ?rs = "[length (heap s') ..< length (heap s') + length ns]"
    obtain q' s'' where sw: "swCallback (req_options ?req) ?rs q ?s0 = (q', s'')"
      by (cases "swCallback (req_options ?req) ?rs q ?s0")
    from ne have le: "last_entry ?rs = Obj (length (heap s') + length ns - 1)"
      by (simp add: last_entry_upt)
    from swCallback_promise [of "req_options ?req" ?rs q ?s0] sw
    have 1: "q' = resolve (Wrapper (currentId s')) q" by simp
    from swCallback_fields(2) [of "req_options ?req" ?rs q ?s0] sw le
    have "notifications s'' =
        obj_set (currentId s') (Obj (length (heap s') + length ns - 1)) (notifications s')"
      by simp
    then have 2: "handle_get (Wrapper (currentId s')) s'' =
        Returns (Obj (length (heap s') + length ns - 1))"
      by (simp add: handle_get_def obj_get_obj_set)
    from swCallback_fields(3) [of "req_options ?req" ?rs q ?s0] sw
    have "heap s'' = heap s' @ ns" by simp
    moreover from ne obtain k where "length ns = Suc k"
      by (cases ns) auto
    ultimately have 3: "deref (heap s'') (length (heap s') + length ns - 1) = last ns"
      using ne by (simp add: deref_def last_conv_nth nth_append)
    from swCallback_fields(1) [of "req_options ?req" ?rs q ?s0] sw
    have 4: "currentId s'' = increment (currentId s')" by simp
    from 1 2 3 4 show ?thesis
      unfolding worker_delivers [OF st] sw by simp
  qed
  from cc only_after delivered
  show "let req = ?req
     in fst (createCallback e title options0 p s) = Returns (Some req) \<and>
        notifications (snd (snd (createCallback e title options0 p s))) = notifications s \<and>
        currentId (snd (snd (createCallback e title options0 p s))) = currentId s \<and>
        (\<forall>sigs. \<not> untouched (snd (worker_signals sigs req q s')) (q, s') \<longrightarrow>
           (\<exists>a b c. sigs = a @ WorkerReady # b @ DisplaySuccess # c)) \<and>
        (ns \<noteq> [] \<longrightarrow>
           (case worker_signals [WorkerReady, DisplaySuccess, NotificationList ns] req q s' of
              (req', q', s'') \<Rightarrow>
                q' = resolve (Wrapper (currentId s')) q \<and>
                handle_get (Wrapper (currentId s')) s'' =
                  Returns (Obj (length (heap s') + length ns - 1)) \<and>
                deref (heap s'') (length (heap s') + length ns - 1) = last ns \<and>
                currentId s'' = increment (currentId s')))"
    unfolding Let_def by (simp only: fst_conv snd_conv) simp
qed

theorem worker_creation_after_desktop_failure_witness:
  "\<not> desktop_supported env_worker_only \<and>
   (\<exists>cs. calls (snd (snd (createCallback env_worker_only (JString ''x'') (Some empty_options)
       Pending init))) = calls init @ cs \<and> Create Chrome \<notin> set cs) \<and>
   desktop_supported env_android \<and>
   throws (desktop_create env_android (JString ''x'') (options_or_empty (Some empty_options))) \<and>
   chrome_supported env_android \<and>
   fst (createCallback env_android (JString ''x'') (Some empty_options) Pending init) =
     Returns (Some android_request) \<and>
   [plain (JString ''x'')] \<noteq> [] \<and>
   (case worker_signals [WorkerReady, DisplaySuccess, NotificationList [plain (JString ''x'')]]
           android_request Pending android_pending of
      (req', q', s'') \<Rightarrow>
        q' = Resolved (Wrapper 0) \<and> handle_get (Wrapper 0) s'' = Returns (Obj 0) \<and>
        deref (heap s'') 0 = plain (JString ''x'')) \<and>
   (case worker_signals [WorkerReady, DisplaySuccess, NotificationList [plain (JString ''x'')]]
           android_request (Resolved EmptyHandle) android_pending of
      (req', q', s'') \<Rightarrow>
        q' = Resolved EmptyHandle \<and> handle_get (Wrapper 0) s'' = Returns (Obj 0) \<and>
        deref (heap s'') 0 = plain (JString ''x'') \<and> currentId s'' = 1)"
proof -
  have a: "\<not> desktop_supported env_worker_only"
    by (simp add: env_worker_only_def env_none_def)
  have b: "desktop_supported env_android \<and>
      throws (desktop_create env_android (JString ''x'') (options_or_empty (Some empty_options))) \<and>
      chrome_supported env_android"
    by (simp add: env_android_def env_none_def fails_def)
  have r: "\<lparr>req_id = currentId init, req_options = options_or_empty (Some empty_options),
      stage = AwaitReady\<rparr> = android_request"
    by (simp add: android_request_def init_def options_or_empty_def)
  have i: "currentId android_pending = 0" "heap android_pending = []"
    by (simp_all add: android_pending_def init_def)
  from worker_creation_after_desktop_failure
    [of env_worker_only "JString ''x''" "Some empty_options" Pending init] a
  have 1: "\<exists>cs. calls (snd (snd (createCallback env_worker_only (JString ''x'')
      (Some empty_options) Pending init))) = calls init @ cs \<and> Create Chrome \<notin> set cs"
    by blast
  let ?sigs = "[WorkerReady, DisplaySuccess, NotificationList [plain (JString ''x'')]]"
  obtain r1 q1 s1
    where w1: "worker_signals ?sigs android_request Pending android_pending = (r1, q1, s1)"
    by (cases "worker_signals ?sigs android_request Pending android_pending")
  obtain r2 q2 s2
    where w2: "worker_signals ?sigs android_request (Resolved EmptyHandle) android_pending =
      (r2, q2, s2)"
    by (cases "worker_signals ?sigs android_request (Resolved EmptyHandle) android_pending")
  from worker_creation_after_desktop_failure
    [of env_android "JString ''x''" "Some empty_options" Pending init Pending android_pending
      "[plain (JString ''x'')]"] b
  have c: "fst (createCallback env_android (JString ''x'') (Some empty_options) Pending init) =
       Returns (Some android_request)"
    and d: "q1 = Resolved (Wrapper 0) \<and> handle_get (Wrapper 0) s1 = Returns (Obj 0) \<and>
       deref (heap s1) 0 = plain (JString ''x'')"
    unfolding Let_def r w1 by (simp_all add: i)
  from c d
  have 2: "fst (createCallback env_android (JString ''x'') (Some empty_options) Pending init) =
       Returns (Some android_request) \<and>
     (case worker_signals [WorkerReady, DisplaySuccess, NotificationList [plain (JString ''x'')]]
           android_request Pending android_pending of
      (req', q', s'') \<Rightarrow>
        q' = Resolved (Wrapper 0) \<and> handle_get (Wrapper 0) s'' = Returns (Obj 0) \<and>
        deref (heap s'') 0 = plain (JString ''x''))"
    unfolding w1 by simp
  from worker_creation_after_desktop_failure
    [of env_android "JString ''x''" "Some empty_options" Pending init "Resolved EmptyHandle"
      android_pending "[plain (JString ''x'')]"] b
  have "q2 = Resolved EmptyHandle \<and> handle_get (Wrapper 0) s2 = Returns (Obj 0) \<and>
       deref (heap s2) 0 = plain (JString ''x'') \<and> currentId s2 = 1"
    unfolding Let_def r w2 by (simp add: i increment_def id_limit_def)
  then have 3: "case worker_signals
        [WorkerReady, DisplaySuccess, NotificationList [plain (JString ''x'')]]
        android_request (Resolved EmptyHandle) android_pending of
      (req', q', s'') \<Rightarrow>
        q' = Resolved EmptyHandle \<and> handle_get (Wrapper 0) s'' = Returns (Obj 0) \<and>
        deref (heap s'') 0 = plain (JString ''x'') \<and> currentId s'' = 1"
    unfolding w2 by simp
  from a b 1 2 3 show ?thesis by simp
qed

text \<open>
  C3 as stated fails: with the desktop agent unsupported and the Service-Worker agent
  supported, \<open>create("x", {})\<close> is rejected with the unknown-interface error and the
  Service-Worker agent is not even probed.
\<close>

theorem worker_agent_alone_is_not_used:
  "\<not> desktop_supported env_worker_only \<and> chrome_supported env_worker_only \<and>
   create env_worker_only (JString ''x'') (Some empty_options) init =
     (Returns (Rejected (Thrown UnknownInterface), None),
      init\<lparr>calls := [PermissionHas, IsSupported Desktop, IsSupported WebKit,
                      IsSupported Firefox, IsSupported MS]\<rparr>)"
  by (simp add: env_worker_only_def env_none_def create_def tryCreateCallback_def
        createCallback_def log_def init_def)

text \<open>
  C1, at the input where the code departs from it. On mobile Chrome the call of
  \<open>create\<close> returns a future already resolved with the empty handle, because
  \<open>resolve({})\<close> at the end of \<open>_createCallback\<close> runs before the Service-Worker agent
  has called back. When the agent then calls back with the record, the record is
  registered under id 0 and \<open>resolve(wrapper)\<close> is called, on a future that is settled:
  it stays resolved with the empty handle.
\<close>

theorem worker_path_future_stays_empty:
  "create env_android (JString ''x'') None init =
     (Returns (Resolved EmptyHandle, Some android_request),
      init\<lparr>calls := [PermissionHas, IsSupported Desktop, Create Desktop,
                      IsSupported Chrome, Create Chrome]\<rparr>) \<and>
   worker_signals [WorkerReady, DisplaySuccess, NotificationList [plain (JString ''x'')]]
       android_request (Resolved EmptyHandle)
       (init\<lparr>calls := [PermissionHas, IsSupported Desktop, Create Desktop,
                       IsSupported Chrome, Create Chrome]\<rparr>) =
     (android_request\<lparr>stage := Delivered\<rparr>, Resolved EmptyHandle,
      \<lparr>currentId = 1, notifications = [(0, Obj 0)], heap = [plain (JString ''x'')],
       timers = [], messageListeners = 1,
       calls = [PermissionHas, IsSupported Desktop, Create Desktop, IsSupported Chrome,
                Create Chrome, ShowNotification 0, PostMessage]\<rparr>)"
  by (simp add: env_android_def env_none_def create_def tryCreateCallback_def
        createCallback_def log_def init_def fails_def agent_create_eq chrome_create_def
        finish_def options_or_empty_def android_request_def worker_signal_def
        chrome_signal_def alloc_def swCallback_def addNotification_def
        prepareNotification_def last_entry_def empty_options_def increment_def id_limit_def)

section \<open>The permission gate\<close>

lemma createCallback_promise:
  "case createCallback e title options0 Pending s of
     (Throws x, p', s') \<Rightarrow> p' = Pending
   | (Returns r, p', s') \<Rightarrow> \<not> rejected p' \<and> p' \<noteq> Pending"
proof -
  obtain probes r where pr: "probe_in_order e fallback_order = (probes, r)"
    by (cases "probe_in_order e fallback_order")
  show ?thesis
  proof (cases r)
    case None
    with pr show ?thesis
      by (simp add: createCallback_none)
  next
    case (Some a)
    note pa = pr [unfolded Some]
    show ?thesis
    proof (cases "agent_creates e a title (options_or_empty options0)")
      case (Returns v)
      show ?thesis
      proof (cases v)
        case None
        with Returns pa show ?thesis by (simp add: createCallback_null)
      next
        case (Some n)
        with Returns pa show ?thesis
          by (cases "a = Firefox")
             (simp_all add: createCallback_record finish_none split_beta finish_promise)
      qed
    next
      case (Throws x)
      show ?thesis
      proof (cases "a = Desktop")
        case True
        with pa have ds: "desktop_supported e"
          by (cases rule: probe_cases; simp)
        from True Throws have dt: "desktop_create e title (options_or_empty options0) = Throws x"
          by (simp add: agent_creates_def)
        show ?thesis
          by (simp add: createCallback_desktop_throws [OF ds dt])
      next
        case False
        with pa Throws show ?thesis
          by (simp add: createCallback_throws)
      qed
    qed
  qed
qed

lemma expected_calls_agents_only:
  "PermissionRequest \<notin> set (expected_calls e title options0)"
proof -
  obtain probes r where pr: "probe_in_order e fallback_order = (probes, r)"
    by (cases "probe_in_order e fallback_order")
  from pr show ?thesis
    by (cases rule: probe_cases) (insert pr, simp_all add: expected_calls_def)
qed

lemma tryCreateCallback_calls:
  "calls (snd (snd (tryCreateCallback e title options0 p s))) =
     calls s @ expected_calls e title options0"
proof -
  obtain r p' s' where cc: "createCallback e title options0 p s = (r, p', s')"
    by (cases "createCallback e title options0 p s")
  with createCallback_calls [of e title options0 p s] show ?thesis
    by (cases r) (simp_all add: tryCreateCallback_def)
qed

text \<open>
  C6, as amended. A \<open>create\<close> with a string title and no permission asks the
  Permission Gate once, calls no agent and returns a pending future. If the request is
  denied, the future is rejected with the permission-declined reason, no agent is ever
  called and nothing else has changed. If it is granted, dispatch runs: the calls that
  follow are those of the priority order, with no further request, and the future fails
  exactly when \<open>_createCallback\<close> throws.
\<close>

theorem permission_request_gates_dispatch:
  assumes "isString title" and "\<not> permission_has e"
  shows "create e title options0 s =
       (Returns (Pending, None), s\<lparr>calls := calls s @ [PermissionHas, PermissionRequest]\<rparr>) \<and>
     create_decided e Denied title options0 s =
       (Returns (Rejected Declined, None),
        s\<lparr>calls := calls s @ [PermissionHas, PermissionRequest]\<rparr>) \<and>
     (let t = tryCreateCallback e title options0 Pending
                (s\<lparr>calls := calls s @ [PermissionHas, PermissionRequest]\<rparr>)
      in create_decided e Granted title options0 s =
           (Returns (fst t, fst (snd t)), snd (snd t))) \<and>
     calls (snd (create_decided e Granted title options0 s)) =
       calls s @ [PermissionHas, PermissionRequest] @ expected_calls e title options0 \<and>
     PermissionRequest \<notin> set (expected_calls e title options0) \<and>
     (case fst (create_decided e Granted title options0 s) of
        Returns (p, req) \<Rightarrow>
          rejected p =
            throws (fst (createCallback e title options0 Pending
              (s\<lparr>calls := calls s @ [PermissionHas, PermissionRequest]\<rparr>)))
      | Throws x \<Rightarrow> False)"
proof -
  let ?s1 = "s\<lparr>calls := calls s @ [PermissionHas, PermissionRequest]\<rparr>"
  have c: "create e title options0 s = (Returns (Pending, None), ?s1)"
    using assms by (simp add: create_def log_def)
  have d: "create_decided e Denied title options0 s = (Returns (Rejected Declined, None), ?s1)"
    using assms by (simp add: create_decided_def c permissionDenied_def)
  let ?t = "tryCreateCallback e title options0 Pending ?s1"
  have g: "create_decided e Granted title options0 s =
      (Returns (fst ?t, fst (snd ?t)), snd (snd ?t))"
    using assms by (simp add: create_decided_def c permissionGranted_def split_beta)
  have gc: "calls (snd (create_decided e Granted title options0 s)) =
      calls s @ [PermissionHas, PermissionRequest] @ expected_calls e title options0"
    using tryCreateCallback_calls [of e title options0 Pending ?s1]
    by (simp add: g)
  have gr: "case fst (create_decided e Granted title options0 s) of
        Returns (p, req) \<Rightarrow>
          rejected p = throws (fst (createCallback e title options0 Pending ?s1))
      | Throws x \<Rightarrow> False"
  proof -
    obtain r p' s' where cc: "createCallback e title options0 Pending ?s1 = (r, p', s')"
      by (cases "createCallback e title options0 Pending ?s1")
    with createCallback_promise [of e title options0 ?s1] show ?thesis
      by (cases r; cases p') (simp_all add: g tryCreateCallback_def)
  qed
  from c d g gc gr expected_calls_agents_only [of e title options0] show ?thesis
    unfolding Let_def by blast
qed

theorem permission_request_gates_dispatch_witness:
  "isString (JString ''x'') \<and> \<not> permission_has env_prompting \<and>
   create env_prompting (JString ''x'') None init =
     (Returns (Pending, None), init\<lparr>calls := [PermissionHas, PermissionRequest]\<rparr>) \<and>
   create_decided env_prompting Denied (JString ''x'') None init =
     (Returns (Rejected Declined, None), init\<lparr>calls := [PermissionHas, PermissionRequest]\<rparr>) \<and>
   calls (snd (create_decided env_prompting Granted (JString ''x'') None init)) =
     [PermissionHas, PermissionRequest, IsSupported Desktop, Create Desktop]"
proof -
  have a: "isString (JString ''x'')" "\<not> permission_has env_prompting"
    by (simp_all add: env_prompting_def env_desktop_def env_none_def)
  have x: "expected_calls env_prompting (JString ''x'') None =
      [IsSupported Desktop, Create Desktop]"
    by (simp add: expected_calls_def fallback_order_def isSupported_def env_prompting_def
          env_desktop_def env_none_def makes_record_def)
  have i: "calls init = []" by (simp add: init_def)
  from permission_request_gates_dispatch [OF a, of None init] a x i
  show ?thesis by simp
qed

text \<open>
  C6 as stated fails in its "only if": a request that is granted, in an environment
  without a supported agent, ends in a future rejected with the unknown-interface error.
\<close>

theorem granted_request_can_still_fail:
  "isString (JString ''x'') \<and> \<not> permission_has env_prompting_none \<and>
   create_decided env_prompting_none Granted (JString ''x'') None init =
     (Returns (Rejected (Thrown UnknownInterface), None),
      init\<lparr>calls := [PermissionHas, PermissionRequest, IsSupported Desktop,
                      IsSupported WebKit, IsSupported Firefox, IsSupported MS]\<rparr>)"
  by (simp add: env_prompting_none_def env_none_def create_decided_def create_def
        permissionGranted_def tryCreateCallback_def createCallback_def log_def init_def)

section \<open>Evaluation on mobile Chrome\<close>

text \<open>The first two increments, and the definitions that a concrete creation unfolds.\<close>

lemma increment_small:
  "increment 0 = Suc 0" "increment (Suc 0) = Suc (Suc 0)"
  by (simp_all add: increment_def id_limit_def)

lemmas evaluation =
  env_android_def env_none_def create_def tryCreateCallback_def
  createCallback_def log_def init_def fails_def agent_create_eq chrome_create_def
  finish_def options_or_empty_def android_request_def worker_signal_def
  chrome_signal_def alloc_def swCallback_def addNotification_def
  prepareNotification_def last_entry_def empty_options_def increment_small

section \<open>Allocation of ids\<close>

lemma obj_set_appends:
  "list_all (\<lambda>k. k < i) (map fst xs) \<Longrightarrow> obj_set i v xs = xs @ [(i, v)]"
  by (induction xs) auto

lemma keys_obj_delete: "map fst (obj_delete k xs) = filter (\<lambda>j. j \<noteq> k) (map fst xs)"
  by (induction xs) (auto simp: obj_delete_def)

lemma removeNotification_shrinks:
  "currentId (snd (removeNotification ident s)) = currentId s \<and>
   set (map fst (notifications (snd (removeNotification ident s)))) \<subseteq>
     set (map fst (notifications s))"
  by (auto simp: removeNotification_def keys_obj_delete simp del: set_map)

lemma closeNotification_currentId:
  "currentId (snd (closeNotification e ident s)) = currentId s"
  by (simp add: closeNotification_def removeNotification_def log_def Let_def split: slot.splits)

lemma closeNotification_shrinks:
  "currentId (snd (closeNotification e ident s)) = currentId s \<and>
   set (map fst (notifications (snd (closeNotification e ident s)))) \<subseteq>
     set (map fst (notifications s))"
  by (auto simp: closeNotification_currentId closeNotification_notifications keys_obj_delete
        simp del: set_map split: slot.splits)

lemma handle_close_state:
  "snd (handle_close e (Wrapper ident) s) = snd (closeNotification e ident s)"
  by (simp add: handle_close_def split: prod.splits result.splits)

lemma close_loop_shrinks:
  "currentId (snd (close_loop e t ks s)) = currentId s \<and>
   set (map fst (notifications (snd (close_loop e t ks s)))) \<subseteq>
     set (map fst (notifications s))"
proof (induction ks)
  case Nil
  show ?case by simp
next
  case (Cons k ks)
  obtain r s' where c: "closeNotification e k s = (r, s')"
    by (cases "closeNotification e k s")
  with closeNotification_shrinks [of e k s]
  have "currentId s' = currentId s \<and>
      set (map fst (notifications s')) \<subseteq> set (map fst (notifications s))"
    by simp
  with Cons c show ?case
    by (cases r) (simp_all split: slot.splits)
qed

lemma clear_loop_shrinks:
  "currentId (snd (clear_loop e ks b s)) = currentId s \<and>
   set (map fst (notifications (snd (clear_loop e ks b s)))) \<subseteq>
     set (map fst (notifications s))"
proof (induction ks arbitrary: b s)
  case Nil
  show ?case by simp
next
  case (Cons k ks)
  obtain r s' where c: "closeNotification e k s = (r, s')"
    by (cases "closeNotification e k s")
  with closeNotification_shrinks [of e k s]
  have s': "currentId s' = currentId s \<and>
      set (map fst (notifications s')) \<subseteq> set (map fst (notifications s))"
    by simp
  show ?case
  proof (cases r)
    case (Returns b')
    from Cons [of b' s'] s' have "currentId (snd (clear_loop e ks b' s')) = currentId s \<and>
      set (map fst (notifications (snd (clear_loop e ks b' s')))) \<subseteq>
        set (map fst (notifications s))"
      by auto
    with Cons [of b s] Cons [of False s] c Returns show ?thesis
      by simp
  next
    case (Throws x)
    with Cons [of b s] Cons [of False s] c s' show ?thesis
      by simp
  qed
qed

lemma createCallback_registry:
  "(notifications (snd (snd (createCallback e title options0 p s))) = notifications s \<and>
    currentId (snd (snd (createCallback e title options0 p s))) = currentId s) \<or>
   (currentId (snd (snd (createCallback e title options0 p s))) = increment (currentId s) \<and>
    (\<exists>v. notifications (snd (snd (createCallback e title options0 p s))) =
       obj_set (currentId s) v (notifications s)))"
proof -
  obtain probes r where pr: "probe_in_order e fallback_order = (probes, r)"
    by (cases "probe_in_order e fallback_order")
  show ?thesis
  proof (cases r)
    case None
    with pr show ?thesis
      by (simp add: createCallback_none)
  next
    case (Some a)
    note pa = pr [unfolded Some]
    show ?thesis
    proof (cases "agent_creates e a title (options_or_empty options0)")
      case (Returns v)
      show ?thesis
      proof (cases v)
        case None
        with Returns pa show ?thesis by (simp add: createCallback_null)
      next
        case (Some n)
        with Returns pa show ?thesis
          by (cases "a = Firefox")
             (auto simp: createCallback_record finish_none finish_registry)
      qed
    next
      case (Throws x)
      show ?thesis
      proof (cases "a = Desktop")
        case True
        with pa have ds: "desktop_supported e"
          by (cases rule: probe_cases; simp)
        from True Throws have dt: "desktop_create e title (options_or_empty options0) = Throws x"
          by (simp add: agent_creates_def)
        show ?thesis
          by (simp add: createCallback_desktop_throws [OF ds dt])
      next
        case False
        with pa Throws show ?thesis
          by (simp add: createCallback_throws)
      qed
    qed
  qed
qed

lemma tryCreateCallback_state:
  "snd (snd (tryCreateCallback e title options0 p s)) =
     snd (snd (createCallback e title options0 p s))"
proof -
  obtain r p' s' where cc: "createCallback e title options0 p s = (r, p', s')"
    by (cases "createCallback e title options0 p s")
  then show ?thesis
    by (cases r) (simp_all add: tryCreateCallback_def)
qed

lemma create_decided_state:
  "snd (create_decided e d title options0 s) =
     (if \<not> isString title then s
      else if permission_has e
        then snd (snd (createCallback e title options0 Pending (log PermissionHas s)))
      else case d of
             Denied \<Rightarrow> log PermissionRequest (log PermissionHas s)
           | Granted \<Rightarrow>
               snd (snd (createCallback e title options0 Pending
                 (log PermissionRequest (log PermissionHas s)))))"
proof (cases "isString title")
  case False
  then show ?thesis
    by (simp add: create_decided_def create_def)
next
  case True
  show ?thesis
  proof (cases "permission_has e")
    case True
    obtain p req s' where t: "tryCreateCallback e title options0 Pending (log PermissionHas s) =
        (p, req, s')"
      by (cases "tryCreateCallback e title options0 Pending (log PermissionHas s)")
    with tryCreateCallback_state [of e title options0 Pending "log PermissionHas s"]
    have "s' = snd (snd (createCallback e title options0 Pending (log PermissionHas s)))"
      by simp
    with True \<open>isString title\<close> t show ?thesis
      by (simp add: create_decided_def create_def)
  next
    case False
    let ?s1 = "log PermissionRequest (log PermissionHas s)"
    obtain p req s' where t: "tryCreateCallback e title options0 Pending ?s1 = (p, req, s')"
      by (cases "tryCreateCallback e title options0 Pending ?s1")
    with tryCreateCallback_state [of e title options0 Pending ?s1]
    have "s' = snd (snd (createCallback e title options0 Pending ?s1))"
      by simp
    with False \<open>isString title\<close> t show ?thesis
      by (cases d)
         (simp_all add: create_decided_def create_def permissionGranted_def
            permissionDenied_def)
  qed
qed

lemma create_decided_registry:
  "(notifications (snd (create_decided e d title options0 s)) = notifications s \<and>
    currentId (snd (create_decided e d title options0 s)) = currentId s) \<or>
   (currentId (snd (create_decided e d title options0 s)) = increment (currentId s) \<and>
    (\<exists>v. notifications (snd (create_decided e d title options0 s)) =
       obj_set (currentId s) v (notifications s)))"
  using createCallback_registry [of e title options0 Pending "log PermissionHas s"]
    createCallback_registry [of e title options0 Pending
      "log PermissionRequest (log PermissionHas s)"]
  by (cases d) (simp_all add: create_decided_state log_def)

lemma worker_signal_registry:
  "(notifications (snd (snd (worker_signal sig req q s))) = notifications s \<and>
    currentId (snd (snd (worker_signal sig req q s))) = currentId s) \<or>
   (currentId (snd (snd (worker_signal sig req q s))) = increment (currentId s) \<and>
    (\<exists>v. notifications (snd (snd (worker_signal sig req q s))) =
       obj_set (currentId s) v (notifications s)))"
proof (cases "stage req")
  case AwaitReady
  then show ?thesis
    by (cases sig) (simp_all add: worker_signal_ready log_def)
next
  case AwaitDisplay
  then show ?thesis
    by (cases sig) (simp_all add: worker_signal_display)
next
  case AwaitList
  show ?thesis
  proof (cases sig)
    case (NotificationList ns)
    with AwaitList show ?thesis
      by (auto simp: worker_signal_list swCallback_fields)
  qed (simp_all add: worker_signal_def chrome_signal_def AwaitList)
next
  case Delivered
  then show ?thesis by (simp add: worker_signal_settled)
next
  case Failed
  then show ?thesis by (simp add: worker_signal_settled)
qed

lemma increment_below: "n < id_limit \<Longrightarrow> increment n = Suc n"
  by (simp add: increment_def)

lemma increment_ge: "n \<le> increment n"
  by (simp add: increment_def)

lemma increment_le_limit: "n \<le> id_limit \<Longrightarrow> increment n \<le> id_limit"
  by (simp add: increment_def)

text \<open>
  What a step does to the counter and to the keys of the registry: it leaves the counter
  and adds no key, or it sets the property of the current id and increments the counter.
\<close>

lemma step_effect:
  "(currentId (step e ev s) = currentId s \<and>
    set (map fst (notifications (step e ev s))) \<subseteq> set (map fst (notifications s))) \<or>
   (currentId (step e ev s) = increment (currentId s) \<and>
    (\<exists>v. notifications (step e ev s) = obj_set (currentId s) v (notifications s)))"
proof (cases ev)
  case (Created d title options0)
  with create_decided_registry [of e d title options0 s] show ?thesis
    by (auto simp: step_def)
next
  case (Signalled sig req q)
  with worker_signal_registry [of sig req q s] show ?thesis
    by (auto simp: step_def)
next
  case (HandleClosed ident)
  with closeNotification_shrinks [of e ident s] show ?thesis
    by (simp add: step_def handle_close_state)
next
  case (TagClosed t)
  with close_loop_shrinks [of e t _ s] show ?thesis
    by (simp add: step_def close_def)
next
  case Cleared
  with clear_loop_shrinks [of e _ True s] show ?thesis
    by (simp add: step_def clear_def)
next
  case (NativeClosed opts ident)
  with removeNotification_shrinks [of ident s] show ?thesis
    by (simp add: step_def onClose_closure_def log_def Let_def)
next
  case (WorkerMessage action ident)
  show ?thesis
  proof (cases "\<exists>n. ident = JNumber n \<and> action = JString ''close'' \<and> 0 \<le> n")
    case True
    then obtain n where "ident = JNumber n" "action = JString ''close''" "0 \<le> n" by blast
    with WorkerMessage removeNotification_shrinks [of "nat n" s] show ?thesis
      by (simp add: step_def onWorkerMessage_def)
  next
    case False
    with WorkerMessage have "step e ev s = s"
      by (auto simp: step_def onWorkerMessage_def split: jsval.splits)
    then show ?thesis by simp
  qed
qed

lemma step_counter:
  "currentId s \<le> currentId (step e ev s) \<and>
   (currentId s \<le> id_limit \<longrightarrow> currentId (step e ev s) \<le> id_limit)"
  using step_effect [of e ev s] increment_ge [of "currentId s"]
    increment_le_limit [of "currentId s"]
  by auto

lemma run_counter:
  "currentId s \<le> currentId (snd (run e evs s)) \<and>
   (currentId s \<le> id_limit \<longrightarrow> currentId (snd (run e evs s)) \<le> id_limit)"
proof (induction evs arbitrary: s)
  case Nil
  show ?case by simp
next
  case (Cons ev evs)
  from step_counter [of s e ev] Cons [of "step e ev s"] show ?case
    by (auto simp: split_beta Let_def)
qed

text \<open>The counter of a \<open>Push\<close> never passes the limit.\<close>

lemma counter_never_passes_limit: "currentId (snd (run e evs init)) \<le> id_limit"
  using run_counter [of init e evs] by (simp add: init_def)

text \<open>
  At the limit the counter stays: the next registration is handed the same id again and
  overwrites the entry of the one before.
\<close>

lemma counter_stops_at_limit:
  assumes "currentId s = id_limit"
  shows "fst (addNotification v s) = id_limit \<and>
     fst (addNotification w (snd (addNotification v s))) = id_limit \<and>
     obj_get (notifications (snd (addNotification w (snd (addNotification v s))))) id_limit = w"
  using assms by (simp add: addNotification_def increment_def obj_get_obj_set)

lemma step_adds:
  assumes "below_counter s" and "currentId s < id_limit"
  shows "added s (step e ev s) = [currentId s ..< currentId (step e ev s)] \<and>
     below_counter (step e ev s)"
  using step_effect [of e ev s]
proof
  assume a: "currentId (step e ev s) = currentId s \<and>
    set (map fst (notifications (step e ev s))) \<subseteq> set (map fst (notifications s))"
  with assms(1) have "\<forall>k \<in> set (map fst (notifications (step e ev s))). k < currentId s"
    unfolding below_counter_def list_all_iff by (metis subsetD)
  with a have "below_counter (step e ev s)"
    by (simp add: below_counter_def list_all_iff)
  moreover from a
  have "\<forall>k \<in> set (map fst (notifications (step e ev s))). hasOwnProperty (notifications s) k"
    unfolding hasOwnProperty_def by blast
  then have "added s (step e ev s) = []"
    unfolding added_def filter_empty_conv by blast
  ultimately show ?thesis using a by simp
next
  assume a: "currentId (step e ev s) = increment (currentId s) \<and>
    (\<exists>v. notifications (step e ev s) = obj_set (currentId s) v (notifications s))"
  with assms(2) have c: "currentId (step e ev s) = Suc (currentId s)"
    by (simp add: increment_below)
  from a obtain v where "notifications (step e ev s) = obj_set (currentId s) v (notifications s)"
    by blast
  with assms(1) have n: "notifications (step e ev s) = notifications s @ [(currentId s, v)]"
    by (simp add: below_counter_def obj_set_appends)
  from assms(1) have "filter (\<lambda>k. \<not> hasOwnProperty (notifications s) k)
      (map fst (notifications s)) = []"
    by (simp add: hasOwnProperty_def filter_empty_conv)
  moreover from assms(1) have "\<not> hasOwnProperty (notifications s) (currentId s)"
    by (auto simp: below_counter_def hasOwnProperty_def list_all_iff)
  ultimately have "added s (step e ev s) = [currentId s]"
    by (simp add: added_def n)
  moreover from assms(1) c n have "below_counter (step e ev s)"
    by (auto simp: below_counter_def list_all_iff)
  ultimately show ?thesis using c by simp
qed

lemma run_adds:
  "below_counter s \<Longrightarrow> currentId (snd (run e evs s)) < id_limit \<Longrightarrow>
     fst (run e evs s) = [currentId s ..< currentId (snd (run e evs s))] \<and>
     below_counter (snd (run e evs s))"
proof (induction evs arbitrary: s)
  case Nil
  then show ?case by simp
next
  case (Cons ev evs)
  let ?s1 = "step e ev s"
  from Cons.prems(2) have fin: "currentId (snd (run e evs ?s1)) < id_limit"
    by (simp add: split_beta Let_def)
  from step_counter [of s e ev] have le: "currentId s \<le> currentId ?s1"
    by simp
  from run_counter [of ?s1 e evs] have le1: "currentId ?s1 \<le> currentId (snd (run e evs ?s1))"
    by simp
  from le le1 fin have "currentId s < id_limit"
    by simp
  from step_adds [OF Cons.prems(1) this, of e ev]
  have a: "added s ?s1 = [currentId s ..< currentId ?s1]" and b: "below_counter ?s1"
    by simp_all
  from Cons.IH [OF b fin]
  have ih: "fst (run e evs ?s1) = [currentId ?s1 ..< currentId (snd (run e evs ?s1))]"
    "below_counter (snd (run e evs ?s1))"
    by simp_all
  from le le1 have "[currentId s ..< currentId ?s1] @
      [currentId ?s1 ..< currentId (snd (run e evs ?s1))] =
      [currentId s ..< currentId (snd (run e evs ?s1))]"
    by (metis le_Suc_ex upt_add_eq_append)
  with a ih show ?case
    by (simp add: split_beta Let_def)
qed

lemma below_counter_init: "below_counter init"
  by (simp add: below_counter_def init_def)

text \<open>
  The keys of the registry. As long as the counter is below the limit, the keys that the
  registry gains in a run are \<open>0, 1, 2, ...\<close> in this order, removals or not, and the
  counter is their number and above every key.
\<close>

lemma registry_keys_ascend_below_limit:
  assumes "currentId (snd (run e evs init)) < id_limit"
  shows "case run e evs init of
     (ids, s) \<Rightarrow>
       ids = [0 ..< length ids] \<and>
       currentId s = length ids \<and>
       fst (addNotification v s) = length ids \<and>
       list_all (\<lambda>k. k < length ids) (map fst (notifications s))"
proof -
  obtain ids s where r: "run e evs init = (ids, s)"
    by (cases "run e evs init")
  from run_adds [OF below_counter_init, of e evs] assms r
  have a: "ids = [0 ..< currentId s]" and b: "below_counter s"
    by (simp_all add: init_def)
  from a have l: "length ids = currentId s"
    by (metis diff_zero length_upt)
  from a b l show ?thesis
    by (simp add: r addNotification_def below_counter_def)
qed

text \<open>A creation served by the Firefox agent resolves and takes no id at all.\<close>

lemma firefox_creation_takes_no_id:
  "fst (create env_firefox (JString ''x'') None init) = Returns (Resolved EmptyHandle, None) \<and>
   calls (snd (create env_firefox (JString ''x'') None init)) =
     [PermissionHas, IsSupported Desktop, IsSupported WebKit, IsSupported Firefox,
      Create Firefox] \<and>
   currentId (snd (create env_firefox (JString ''x'') None init)) = 0 \<and>
   notifications (snd (create env_firefox (JString ''x'') None init)) = [] \<and>
   fst (run env_firefox [Created Granted (JString ''x'') None] init) = []"
  by (simp add: step_def create_decided_def create_def tryCreateCallback_def
        createCallback_def agent_create_eq finish_def log_def env_firefox_def env_none_def
        makes_record_def options_or_empty_def empty_options_def init_def added_def)

lemma two_in_flight_eq:
  "two_in_flight = init\<lparr>calls :=
     [PermissionHas, IsSupported Desktop, Create Desktop, IsSupported Chrome, Create Chrome,
      PermissionHas, IsSupported Desktop, Create Desktop, IsSupported Chrome, Create Chrome]\<rparr>"
  by (simp add: two_in_flight_def evaluation)

lemma both_listed_eq:
  "both_listed = \<lparr>currentId = 2, notifications = [(0, Obj 0), (1, Obj 2)],
     heap = [plain (JString ''a''), plain (JString ''a''), plain (JString ''b'')],
     timers = [], messageListeners = 2,
     calls = [PermissionHas, IsSupported Desktop, Create Desktop, IsSupported Chrome,
              Create Chrome,
              PermissionHas, IsSupported Desktop, Create Desktop, IsSupported Chrome,
              Create Chrome,
              ShowNotification 0, PostMessage, ShowNotification 0, PostMessage]\<rparr>"
  by (simp add: both_listed_def two_in_flight_eq evaluation)

text \<open>
  C7, at the input where the code departs from it. On mobile Chrome two creations are
  made before the worker has answered. \<open>_createCallback\<close> hands \<open>this._currentId\<close>
  to the Service-Worker agent as the id of the notification and does not increment it:
  both creations carry the id 0 and the counter is still 0. When the worker has answered
  both, the registry holds the first record under 0 and the second under 1; the close
  message of the second notification carries its id 0 and removes the entry of the
  first.
\<close>

theorem create_time_ids_repeat:
  "fst (create env_android (JString ''a'') None init) =
     Returns (Resolved EmptyHandle, Some android_request) \<and>
   fst (create env_android (JString ''b'') None
          (snd (create env_android (JString ''a'') None init))) =
     Returns (Resolved EmptyHandle, Some android_request) \<and>
   req_id android_request = 0 \<and>
   currentId two_in_flight = 0 \<and>
   notifications two_in_flight = [] \<and>
   notifications both_listed = [(0, Obj 0), (1, Obj 2)] \<and>
   deref (heap both_listed) 0 = plain (JString ''a'') \<and>
   deref (heap both_listed) 2 = plain (JString ''b'') \<and>
   notifications (onWorkerMessage (JString ''close'') (JNumber 0) both_listed) = [(1, Obj 2)]"
proof -
  have 1: "fst (create env_android (JString ''a'') None init) =
      Returns (Resolved EmptyHandle, Some android_request)"
    by (simp add: evaluation)
  have 2: "fst (create env_android (JString ''b'') None
          (snd (create env_android (JString ''a'') None init))) =
      Returns (Resolved EmptyHandle, Some android_request)"
    by (simp add: evaluation)
  have 3: "notifications (onWorkerMessage (JString ''close'') (JNumber 0) both_listed) =
      [(1, Obj 2)]"
    by (simp add: both_listed_eq onWorkerMessage_def removeNotification_def hasOwnProperty_def
          obj_delete_def)
  from 1 2 3 show ?thesis
    by (simp add: two_in_flight_eq both_listed_eq android_request_def init_def deref_def)
qed

section \<open>Clearing\<close>

text \<open>Once \<open>success\<close> is false, \<open>clear()\<close> closes nothing more.\<close>

lemma clear_loop_after_failure: "clear_loop e ks False s = (Returns False, s)"
  by (induction ks) simp_all

lemma after_empty_list_eq:
  "after_empty_list = \<lparr>currentId = 1, notifications = [(0, Undefined)],
      heap = [], timers = [], messageListeners = 1,
      calls = [PermissionHas, IsSupported Desktop, Create Desktop, IsSupported Chrome,
               Create Chrome, ShowNotification 0, PostMessage]\<rparr>"
  by (simp add: after_empty_list_def evaluation)

lemma stuck_eq:
  "stuck = \<lparr>currentId = 2, notifications = [(0, Undefined), (1, Obj 0)],
      heap = [plain (JString ''b'')], timers = [], messageListeners = 2,
      calls = [PermissionHas, IsSupported Desktop, Create Desktop, IsSupported Chrome,
               Create Chrome, ShowNotification 0, PostMessage,
               PermissionHas, IsSupported Desktop, Create Desktop, IsSupported Chrome,
               Create Chrome, ShowNotification 1, PostMessage]\<rparr>"
  by (simp add: stuck_def after_empty_list_eq evaluation)

text \<open>
  C2, at the input where the code departs from it. After the two creations the registry
  holds \<open>undefined\<close> under id 0 and a record under id 1. The closure of id 0 returns
  \<open>false\<close>; the closure of id 1 alone would return \<open>true\<close>; \<open>clear()\<close> returns
  \<open>false\<close> and leaves the state as it was: the record under id 1 is neither closed nor
  removed.
\<close>

theorem clear_stops_at_first_failure:
  "fst (create env_android (JString ''a'') None init) =
     Returns (Resolved EmptyHandle, Some android_request) \<and>
   notifications after_empty_list = [(0, Undefined)] \<and>
   fst (create env_android (JString ''b'') None after_empty_list) =
     Returns (Resolved EmptyHandle, Some (android_request\<lparr>req_id := 1\<rparr>)) \<and>
   notifications stuck = [(0, Undefined), (1, Obj 0)] \<and>
   closeNotification env_android 0 stuck = (Returns False, stuck) \<and>
   fst (closeNotification env_android 1 stuck) = Returns True \<and>
   clear env_android stuck = (Returns False, stuck)"
proof -
  have 1: "fst (create env_android (JString ''a'') None init) =
      Returns (Resolved EmptyHandle, Some android_request)"
    by (simp add: evaluation)
  have 2: "fst (create env_android (JString ''b'') None after_empty_list) =
      Returns (Resolved EmptyHandle, Some (android_request\<lparr>req_id := 1\<rparr>))"
    by (simp add: after_empty_list_eq evaluation)
  have 3: "closeNotification env_android 0 stuck = (Returns False, stuck)"
    by (simp add: stuck_eq closeNotification_def obj_get_def)
  have 4: "fst (closeNotification env_android 1 stuck) = Returns True"
    by (simp add: stuck_eq closeNotification_def obj_get_def removeNotification_def
          hasOwnProperty_def env_android_def env_none_def)
  have k: "map fst (notifications stuck) = [0, 1]"
    by (simp add: stuck_eq)
  have h: "hasOwnProperty (notifications stuck) 0"
    by (simp add: stuck_eq hasOwnProperty_def)
  have 5: "clear env_android stuck = (Returns False, stuck)"
    unfolding clear_def k by (simp add: h 3 clear_loop_after_failure)
  from 1 2 3 4 5 show ?thesis
    by (simp add: after_empty_list_eq stuck_eq)
qed

section \<open>Closing by tag over an entry without a record\<close>

text \<open>
  C9, at the input where the code departs from it. The registry holds \<open>undefined\<close>
  under id 0 and a record tagged \<open>b\<close> under id 1. The scan of \<open>close(tag)\<close> reads
  \<open>notification.tag\<close> of the first entry and raises a TypeError: \<open>close("b")\<close>
  does not close the first match, and \<open>close("zzz")\<close>, which no tag matches, does not
  return.
\<close>

theorem close_tag_raises_on_undefined_entry:
  "notifications stuck = [(0, Undefined), (1, Obj 0)] \<and>
   deref (heap stuck) 0 = plain (JString ''b'') \<and>
   first_match (JString ''b'') stuck = Some 1 \<and>
   close env_android (JString ''b'') stuck = (Throws TypeError, stuck) \<and>
   first_match (JString ''zzz'') stuck = None \<and>
   close env_android (JString ''zzz'') stuck = (Throws TypeError, stuck)"
proof -
  have k: "map fst (notifications stuck) = [0, 1]"
    and u: "obj_get (notifications stuck) 0 = Undefined"
    by (simp_all add: stuck_eq obj_get_def)
  have c: "close env_android t stuck = (Throws TypeError, stuck)" for t
    unfolding close_def k by (simp add: u)
  have m: "first_match (JString ''b'') stuck = Some 1"
    "first_match (JString ''zzz'') stuck = None"
    by (simp_all add: first_match_def matches_def stuck_eq obj_get_def deref_def plain_def)
  from c m show ?thesis
    by (simp add: stuck_eq deref_def)
qed

end
